theory Spec2Isabelle
  imports Main "HOL-Library.Sublist"
begin

section \<open>Strings\<close>

text \<open>
  A Python \<open>str\<close> is modelled as a \<open>string\<close>, the HOL character with code \<open>n\<close> standing
  for the code point \<open>U+00n\<close>: the model covers the strings whose code points lie in
  \<open>U+0000 .. U+00FF\<close>, and \<open>length\<close> is Python's \<open>len\<close> on them.

  \<open>kw in s\<close> on two strings is the contiguous-substring test.
\<close>

definition str_in :: "string \<Rightarrow> string \<Rightarrow> bool" where
  "str_in kw s = sublist kw s"

text \<open>
  \<open>str.lower()\<close> on this range: the upper-case letters are \<open>A .. Z\<close> and
  \<open>U+00C0 .. U+00DE\<close> without the multiplication sign \<open>U+00D7\<close>; each is moved up by 32.
\<close>

definition lower_char :: "char \<Rightarrow> char" where
  "lower_char c =
     (let n = (of_char c :: nat)
      in if (65 \<le> n \<and> n \<le> 90) \<or> (192 \<le> n \<and> n \<le> 214) \<or> (216 \<le> n \<and> n \<le> 222)
         then char_of (n + 32) else c)"

definition py_lower :: "string \<Rightarrow> string" where
  "py_lower s = map lower_char s"

section \<open>The keyword categorizer (sensai\_feature\_analysis.py)\<close>

text \<open>The keys of \<open>self.categories\<close>, in the order of the dictionary literal.\<close>

definition categories :: "string list" where
  "categories =
     [''installation'', ''configuration'', ''user_interface'', ''api_integration'',
      ''data_processing'', ''authentication'', ''utilities'', ''error_handling'',
      ''platform_detection'', ''dependency_management'', ''voice_processing'',
      ''translation'', ''cryptography'']"

text \<open>
  \<open>any(keyword in name_lower for keyword in kws)\<close>.
\<close>

definition any_keyword :: "string list \<Rightarrow> string \<Rightarrow> bool" where
  "any_keyword kws name_lower = list_ex (\<lambda>keyword. str_in keyword name_lower) kws"

text \<open>
  \<open>FeatureCategorizer.categorize_feature\<close>: the chain of \<open>if ... return\<close> statements, in
  the order of the source. The arguments \<open>feature_type\<close> and \<open>context\<close> (here \<open>ctx\<close>) are never read.
\<close>

definition categorize_feature :: "string \<Rightarrow> string \<Rightarrow> (string \<times> string) list \<Rightarrow> string" where
  "categorize_feature feature_name feature_type ctx =
     (let name_lower = py_lower feature_name in
      if any_keyword [''install'', ''setup'', ''package'', ''dependencies''] name_lower
        then ''installation''
      else if any_keyword [''detect'', ''os'', ''platform'', ''termux'', ''linux'', ''android''] name_lower
        then ''platform_detection''
      else if any_keyword [''config'', ''setting'', ''mode'', ''option''] name_lower
        then ''configuration''
      else if any_keyword [''ui'', ''interface'', ''display'', ''show'', ''print'', ''prompt''] name_lower
        then ''user_interface''
      else if any_keyword [''api'', ''request'', ''http'', ''client'', ''fetch''] name_lower
        then ''api_integration''
      else if any_keyword [''voice'', ''tts'', ''audio'', ''sound'', ''alsa'', ''speak''] name_lower
        then ''voice_processing''
      else if any_keyword [''translate'', ''translation'', ''language''] name_lower
        then ''translation''
      else if any_keyword [''crypto'', ''encrypt'', ''decrypt'', ''hash'', ''secure''] name_lower
        then ''cryptography''
      else if any_keyword [''process'', ''parse'', ''transform'', ''convert'', ''generate''] name_lower
        then ''data_processing''
      else if any_keyword [''error'', ''exception'', ''try'', ''catch'', ''handle''] name_lower
        then ''error_handling''
      else if any_keyword [''util'', ''helper'', ''common'', ''shared'', ''base''] name_lower
        then ''utilities''
      else ''utilities'')"

text \<open>
  The reading of the specification: a fixed ordered list of rules, each a keyword list
  with its label, the first rule with a keyword occurring in the lower-cased name wins,
  and \<open>utilities\<close> is the default.
\<close>

definition keyword_rules :: "(string list \<times> string) list" where
  "keyword_rules =
     [([''install'', ''setup'', ''package'', ''dependencies''], ''installation''),
      ([''detect'', ''os'', ''platform'', ''termux'', ''linux'', ''android''], ''platform_detection''),
      ([''config'', ''setting'', ''mode'', ''option''], ''configuration''),
      ([''ui'', ''interface'', ''display'', ''show'', ''print'', ''prompt''], ''user_interface''),
      ([''api'', ''request'', ''http'', ''client'', ''fetch''], ''api_integration''),
      ([''voice'', ''tts'', ''audio'', ''sound'', ''alsa'', ''speak''], ''voice_processing''),
      ([''translate'', ''translation'', ''language''], ''translation''),
      ([''crypto'', ''encrypt'', ''decrypt'', ''hash'', ''secure''], ''cryptography''),
      ([''process'', ''parse'', ''transform'', ''convert'', ''generate''], ''data_processing''),
      ([''error'', ''exception'', ''try'', ''catch'', ''handle''], ''error_handling''),
      ([''util'', ''helper'', ''common'', ''shared'', ''base''], ''utilities'')]"

definition rule_matches :: "string \<Rightarrow> string list \<times> string \<Rightarrow> bool" where
  "rule_matches name_lower rule = list_ex (\<lambda>keyword. sublist keyword name_lower) (fst rule)"

definition first_matching_label :: "string \<Rightarrow> string" where
  "first_matching_label name_lower =
     (case find (rule_matches name_lower) keyword_rules of
        Some rule \<Rightarrow> snd rule
      | None \<Rightarrow> ''utilities'')"

section \<open>Syntax trees\<close>

text \<open>
  The nodes of Python's \<open>ast\<close> module, as far as the scripts look at them. A node
  carries the attributes that the scripts read and its child nodes:
  \<^item> \<open>FunctionDef name lineno params children\<close>, with \<open>params\<close> the list
    \<open>[a.arg for a in node.args.args]\<close> and \<open>children\<close> every child node (the
    \<open>arguments\<close> node, the body, the decorators, the return annotation);
  \<^item> \<open>AsyncFunctionDef\<close>, the node of \<open>async def\<close>, with the same fields; it is a
    class of its own and not a subclass of \<open>FunctionDef\<close>;
  \<^item> \<open>ClassDef name lineno bases rest\<close>, with \<open>rest\<close> the keywords, the body and the
    decorators;
  \<^item> \<open>Import aliases\<close> and \<open>ImportFrom module aliases\<close>, an alias being the pair of
    \<open>alias.name\<close> and \<open>alias.asname\<close>;
  \<^item> \<open>Assign lineno targets value\<close>, \<open>Call func arguments\<close>, \<open>Name id\<close>,
    \<open>Attribute value attr\<close>;
  \<^item> \<open>Other children\<close> for a node of any other class (\<open>Module\<close>, \<open>Expr\<close>,
    \<open>Pass\<close>, \<open>arguments\<close>, \<open>arg\<close>, \<open>alias\<close>, \<open>Load\<close>, ...).
\<close>

datatype ast =
    FunctionDef string nat "string list" "ast list"
  | AsyncFunctionDef string nat "string list" "ast list"
  | ClassDef string nat "ast list" "ast list"
  | Import "(string \<times> string option) list"
  | ImportFrom "string option" "(string \<times> string option) list"
  | Assign nat "ast list" ast
  | Call ast "ast list"
  | Name string
  | Attribute ast string
  | Other "ast list"

text \<open>
  \<open>ast.iter_child_nodes\<close>: the child nodes in field order. An alias is a leaf node, and
  \<open>Name\<close> and \<open>Attribute\<close> have their expression context (\<open>Load\<close>, \<open>Store\<close>) as a
  leaf child.
\<close>

fun iter_child_nodes :: "ast \<Rightarrow> ast list" where
  "iter_child_nodes (FunctionDef name lineno params children) = children"
| "iter_child_nodes (AsyncFunctionDef name lineno params children) = children"
| "iter_child_nodes (ClassDef name lineno bases rest) = bases @ rest"
| "iter_child_nodes (Import aliases) = map (\<lambda>a. Other []) aliases"
| "iter_child_nodes (ImportFrom module aliases) = map (\<lambda>a. Other []) aliases"
| "iter_child_nodes (Assign lineno targets v) = targets @ [v]"
| "iter_child_nodes (Call func arguments) = func # arguments"
| "iter_child_nodes (Name ident) = [Other []]"
| "iter_child_nodes (Attribute v attr) = [v, Other []]"
| "iter_child_nodes (Other children) = children"

text \<open>
  The number of nodes of a tree, the measure under which the traversal below ends.
\<close>

fun nodes :: "ast \<Rightarrow> nat" where
  "nodes (FunctionDef name lineno params children) = Suc (sum_list (map nodes children))"
| "nodes (AsyncFunctionDef name lineno params children) = Suc (sum_list (map nodes children))"
| "nodes (ClassDef name lineno bases rest) =
     Suc (sum_list (map nodes bases) + sum_list (map nodes rest))"
| "nodes (Import aliases) = Suc (length aliases)"
| "nodes (ImportFrom module aliases) = Suc (length aliases)"
| "nodes (Assign lineno targets v) = Suc (sum_list (map nodes targets) + nodes v)"
| "nodes (Call func arguments) = Suc (nodes func + sum_list (map nodes arguments))"
| "nodes (Name ident) = 2"
| "nodes (Attribute v attr) = Suc (Suc (nodes v))"
| "nodes (Other children) = Suc (sum_list (map nodes children))"

text \<open>
  \<open>ast.walk\<close>: a queue that starts with the root; the first node is taken out, its
  children are put at the end, and the node is yielded, until the queue is empty.
\<close>

function walk_queue :: "ast list \<Rightarrow> ast list" where
  "walk_queue [] = []"
| "walk_queue (node # todo) = node # walk_queue (todo @ iter_child_nodes node)"
  by pat_completeness auto
termination
proof (relation "measure (\<lambda>todo. sum_list (map nodes todo))")
  fix node :: ast and todo :: "ast list"
  have "nodes node = Suc (sum_list (map nodes (iter_child_nodes node)))"
    by (cases node) (simp_all add: comp_def sum_list_triv)
  then show "(todo @ iter_child_nodes node, node # todo) \<in> measure (\<lambda>todo. sum_list (map nodes todo))"
    by simp
qed simp

definition walk :: "ast \<Rightarrow> ast list" where
  "walk node = walk_queue [node]"

section \<open>The fact extractor (extract\_knowledge.py)\<close>

text \<open>
  A fact is a dictionary with the keys \<open>subject\<close>, \<open>predicate\<close>, \<open>object\<close>,
  \<open>context\<close> and \<open>graph\<close>. The quad conversion reads the last two with
  \<open>dict.get\<close> and a default, so a fact may lack them: they are options here. The field
  \<open>ctxt\<close> is the key \<open>context\<close>.
\<close>

record fact =
  subject :: string
  predicate :: string
  object :: string
  ctxt :: "string option"
  graph :: "string option"

text \<open>\<open>os.path.basename\<close>: what follows the last slash.\<close>

definition basename :: "string \<Rightarrow> string" where
  "basename p = rev (takeWhile (\<lambda>c. c \<noteq> CHR ''/'') (rev p))"

text \<open>
  \<open>extract_triples_from_ast\<close>: one branch per node class, in the order of the
  \<open>if ... elif\<close> chain; a node of any other class gives no fact. A base class, an
  assignment target and a callee count only when they are a \<open>Name\<close> node, and
  \<open>from ... import\<close> only when \<open>node.module\<close> is neither \<open>None\<close> nor empty.
\<close>

fun extract_triples_from_ast :: "ast \<Rightarrow> string \<Rightarrow> fact list" where
  "extract_triples_from_ast (FunctionDef name lineno params children) file_path =
     \<lparr>subject = name, predicate = ''is_a'', object = ''function'',
      ctxt = Some file_path, graph = Some ''code_structure''\<rparr>
     # map (\<lambda>arg. \<lparr>subject = name, predicate = ''has_parameter'', object = arg,
                   ctxt = Some file_path, graph = Some ''code_structure''\<rparr>) params"
| "extract_triples_from_ast (ClassDef name lineno bases rest) file_path =
     \<lparr>subject = name, predicate = ''is_a'', object = ''class'',
      ctxt = Some file_path, graph = Some ''code_structure''\<rparr>
     # concat (map (\<lambda>base. case base of
                      Name ident \<Rightarrow>
                        [\<lparr>subject = name, predicate = ''inherits_from'', object = ident,
                          ctxt = Some file_path, graph = Some ''inheritance''\<rparr>]
                    | _ \<Rightarrow> []) bases)"
| "extract_triples_from_ast (Import aliases) file_path =
     map (\<lambda>alias. \<lparr>subject = basename file_path, predicate = ''imports'', object = fst alias,
                    ctxt = Some file_path, graph = Some ''dependencies''\<rparr>) aliases"
| "extract_triples_from_ast (ImportFrom module aliases) file_path =
     (case module of
        None \<Rightarrow> []
      | Some m \<Rightarrow>
          if m = [] then []
          else map (\<lambda>alias. \<lparr>subject = basename file_path, predicate = ''imports_from'',
                              object = m @ ''.'' @ fst alias,
                              ctxt = Some file_path, graph = Some ''dependencies''\<rparr>) aliases)"
| "extract_triples_from_ast (Assign lineno targets v) file_path =
     concat (map (\<lambda>target. case target of
                    Name ident \<Rightarrow>
                      [\<lparr>subject = ident, predicate = ''assigned_in'', object = basename file_path,
                        ctxt = Some file_path, graph = Some ''code_structure''\<rparr>]
                  | _ \<Rightarrow> []) targets)"
| "extract_triples_from_ast (Call func arguments) file_path =
     (case func of
        Name ident \<Rightarrow>
          [\<lparr>subject = basename file_path, predicate = ''calls'', object = ident,
            ctxt = Some file_path, graph = Some ''call_graph''\<rparr>]
      | _ \<Rightarrow> [])"
| "extract_triples_from_ast node file_path = []"

text \<open>
  \<open>extract_quads_from_relationships\<close>: one quad per triple; \<open>graph\<close> is
  \<open>triple.get('graph', 'default')\<close> and \<open>context\<close> is
  \<open>triple.get('context', file_path)\<close>.
\<close>

definition quad_of :: "string \<Rightarrow> fact \<Rightarrow> fact" where
  "quad_of file_path triple =
     \<lparr>subject = subject triple, predicate = predicate triple, object = object triple,
      ctxt = Some (case ctxt triple of Some c \<Rightarrow> c | None \<Rightarrow> file_path),
      graph = Some (case graph triple of Some g \<Rightarrow> g | None \<Rightarrow> ''default'')\<rparr>"

fun extract_quads_from_relationships :: "fact list \<Rightarrow> string \<Rightarrow> fact list" where
  "extract_quads_from_relationships [] file_path = []"
| "extract_quads_from_relationships (triple # triples) file_path =
     quad_of file_path triple # extract_quads_from_relationships triples file_path"

text \<open>
  \<open>analyze_file\<close>. Opening, reading and parsing the file are the work of the
  interpreter; their outcome is an argument: \<open>Inr tree\<close> when \<open>ast.parse\<close> returns
  \<open>tree\<close>, and \<open>Inl e\<close> when one of them raises an exception whose text is \<open>e\<close>
  (the file cannot be opened or read, or its content is not Python). The \<open>except\<close>
  clause turns the exception into a record with the key \<open>error\<close>. The field
  \<open>filename\<close> is the key \<open>file\<close>.
\<close>

record file_result =
  filename :: string
  error :: "string option"
  triples :: "fact list"
  quads :: "fact list"

definition analyze_file :: "string \<Rightarrow> string + ast \<Rightarrow> file_result" where
  "analyze_file file_path parsed =
     (case parsed of
        Inr tree \<Rightarrow>
          (let all_triples = concat (map (\<lambda>node. extract_triples_from_ast node file_path) (walk tree));
               quads = extract_quads_from_relationships all_triples file_path
           in \<lparr>filename = file_path, error = None, triples = all_triples, quads = quads\<rparr>)
      | Inl e \<Rightarrow> \<lparr>filename = file_path, error = Some e, triples = [], quads = []\<rparr>)"

text \<open>
  The loop over \<open>python_files\<close>. A target is its path, what \<open>py_file.exists()\<close>
  does, and the outcome of opening, reading and parsing the file. \<open>py_file.exists()\<close>
  returns \<open>True\<close> or \<open>False\<close>, or it raises: \<open>pathlib\<close> answers \<open>False\<close> only for
  the errors of a path that is not there and raises every other \<open>OSError\<close> again (a
  directory on the path that may not be searched). The call stands outside every
  \<open>try\<close>, so such an exception leaves the loop, and the script ends with it:
  \<open>Inl e\<close> below. \<open>results\<close> has the keys \<open>triples\<close>, \<open>quads\<close> (here
  \<open>all_triples\<close>, \<open>all_quads\<close>) and \<open>files_analyzed\<close>, whose entries hold \<open>file\<close>,
  \<open>triple_count\<close> and \<open>quad_count\<close>.
\<close>

datatype existence =
    Exists
  | Missing
  | ExistsRaises string

record target =
  path :: string
  exists_outcome :: existence
  parsed :: "string + ast"

record results =
  all_triples :: "fact list"
  all_quads :: "fact list"
  files_analyzed :: "(string \<times> nat \<times> nat) list"

definition analyze_target :: "results \<Rightarrow> target \<Rightarrow> string + results" where
  "analyze_target res py_file =
     (case exists_outcome py_file of
        ExistsRaises e \<Rightarrow> Inl e
      | Missing \<Rightarrow> Inr res
      | Exists \<Rightarrow>
          (let file_results = analyze_file (path py_file) (parsed py_file)
           in Inr \<lparr>all_triples = all_triples res @ triples file_results,
                   all_quads = all_quads res @ quads file_results,
                   files_analyzed = files_analyzed res @
                     [(path py_file, length (triples file_results),
                       length (quads file_results))]\<rparr>))"

fun analyze_targets :: "results \<Rightarrow> target list \<Rightarrow> string + results" where
  "analyze_targets res [] = Inr res"
| "analyze_targets res (py_file # py_files) =
     (case analyze_target res py_file of
        Inl e \<Rightarrow> Inl e
      | Inr res' \<Rightarrow> analyze_targets res' py_files)"

definition analyze_all :: "target list \<Rightarrow> string + results" where
  "analyze_all python_files =
     analyze_targets \<lparr>all_triples = [], all_quads = [], files_analyzed = []\<rparr> python_files"

section \<open>Regular-expression scans (sensai\_feature\_analysis.py)\<close>

text \<open>
  The classes \<open>\s\<close> and \<open>\w\<close> of the \<open>re\<close> module on the code points up to
  \<open>U+00FF\<close>: white space is \<open>U+0009 .. U+000D\<close>, \<open>U+001C .. U+0020\<close>, \<open>U+0085\<close> and
  \<open>U+00A0\<close>; a word character is a digit, a letter, the underscore, or one of the
  letters and numeric signs of the upper half.
\<close>

definition is_space :: "char \<Rightarrow> bool" where
  "is_space c =
     (let n = (of_char c :: nat)
      in (9 \<le> n \<and> n \<le> 13) \<or> (28 \<le> n \<and> n \<le> 32) \<or> n = 133 \<or> n = 160)"

definition is_word :: "char \<Rightarrow> bool" where
  "is_word c =
     (let n = (of_char c :: nat)
      in (48 \<le> n \<and> n \<le> 57) \<or> (65 \<le> n \<and> n \<le> 90) \<or> n = 95 \<or> (97 \<le> n \<and> n \<le> 122)
         \<or> n = 170 \<or> n = 178 \<or> n = 179 \<or> n = 181 \<or> n = 185 \<or> n = 186
         \<or> (188 \<le> n \<and> n \<le> 190) \<or> (192 \<le> n \<and> n \<le> 214)
         \<or> (216 \<le> n \<and> n \<le> 246) \<or> (248 \<le> n \<and> n \<le> 255))"

text \<open>A literal at the start of a string: what follows it, or \<open>None\<close>.\<close>

fun strip_prefix :: "string \<Rightarrow> string \<Rightarrow> string option" where
  "strip_prefix [] s = Some s"
| "strip_prefix (p # ps) [] = None"
| "strip_prefix (p # ps) (c # cs) = (if p = c then strip_prefix ps cs else None)"

text \<open>
  One attempt to match a pattern at the start of a string, giving the group and what
  follows the match. In each pattern a greedy repetition is followed by something that
  none of its own characters can start, so the only match takes every repetition to its
  full length.

  \<open>func_pattern\<close> is \<open>def\s+(\w+)\s*\(\<close>.
\<close>

definition match_func :: "string \<Rightarrow> (string \<times> string) option" where
  "match_func s =
     (case strip_prefix ''def'' s of
        None \<Rightarrow> None
      | Some r1 \<Rightarrow>
          if takeWhile is_space r1 = [] then None
          else (let r2 = dropWhile is_space r1;
                    func_name = takeWhile is_word r2;
                    r3 = dropWhile is_space (dropWhile is_word r2)
                in if func_name = [] then None
                   else (case r3 of
                           [] \<Rightarrow> None
                         | c # r4 \<Rightarrow> if c = CHR ''('' then Some (func_name, r4) else None)))"

text \<open>\<open>class_pattern\<close> is \<open>class\s+(\w+)\<close>.\<close>

definition match_class :: "string \<Rightarrow> (string \<times> string) option" where
  "match_class s =
     (case strip_prefix ''class'' s of
        None \<Rightarrow> None
      | Some r1 \<Rightarrow>
          if takeWhile is_space r1 = [] then None
          else (let r2 = dropWhile is_space r1;
                    class_name = takeWhile is_word r2
                in if class_name = [] then None
                   else Some (class_name, dropWhile is_word r2)))"

text \<open>
  \<open>import_pattern\<close> is \<open>^(?:from\s+(\S+)\s+)?import\s+(\S+)\<close>. \<open>match_import_tail\<close>
  is the part after the optional group; \<open>match_import\<close> tries the pattern with the
  group, then without it, and gives \<open>match.group(1) or match.group(2)\<close>.
\<close>

definition match_import_tail :: "string \<Rightarrow> (string \<times> string) option" where
  "match_import_tail s =
     (case strip_prefix ''import'' s of
        None \<Rightarrow> None
      | Some r1 \<Rightarrow>
          if takeWhile is_space r1 = [] then None
          else (let r2 = dropWhile is_space r1;
                    group2 = takeWhile (\<lambda>c. \<not> is_space c) r2
                in if group2 = [] then None
                   else Some (group2, dropWhile (\<lambda>c. \<not> is_space c) r2)))"

definition match_import_from :: "string \<Rightarrow> (string \<times> string) option" where
  "match_import_from s =
     (case strip_prefix ''from'' s of
        None \<Rightarrow> None
      | Some r1 \<Rightarrow>
          if takeWhile is_space r1 = [] then None
          else (let r2 = dropWhile is_space r1;
                    group1 = takeWhile (\<lambda>c. \<not> is_space c) r2;
                    r3 = dropWhile (\<lambda>c. \<not> is_space c) r2
                in if group1 = [] \<or> takeWhile is_space r3 = [] then None
                   else (case match_import_tail (dropWhile is_space r3) of
                           None \<Rightarrow> None
                         | Some (group2, r4) \<Rightarrow> Some (group1, r4))))"

definition match_import :: "string \<Rightarrow> (string \<times> string) option" where
  "match_import s =
     (case match_import_from s of
        Some m \<Rightarrow> Some m
      | None \<Rightarrow> match_import_tail s)"

text \<open>
  \<open>re.finditer\<close>: the matches from left to right, each search starting where the match
  before it ended, and one character further on where there is no match.
\<close>

function scan_funcs :: "string \<Rightarrow> string list" where
  "scan_funcs [] = []"
| "scan_funcs (c # cs) =
     (case match_func (c # cs) of
        Some (func_name, r) \<Rightarrow> func_name # scan_funcs r
      | None \<Rightarrow> scan_funcs cs)"
  by pat_completeness auto
termination
proof (relation "measure length")
  fix c :: char and cs m func_name r
  assume m: "match_func (c # cs) = Some m" and r: "(func_name, r) = m"
  have strip: "strip_prefix p s = Some t \<Longrightarrow> length t \<le> length s" for p s t
    by (induction p s rule: strip_prefix.induct) (auto split: if_splits)
  have drops: "length (dropWhile P s) \<le> length s" for P and s :: string
    by (induction s) simp_all
  obtain r1 where r1: "strip_prefix ''def'' (c # cs) = Some r1"
    using m by (auto simp: match_func_def split: option.splits)
  have "length r < length (dropWhile is_space (dropWhile is_word (dropWhile is_space r1)))"
    using m r r1 by (auto simp: match_func_def Let_def split: if_splits list.splits)
  also have "\<dots> \<le> length (dropWhile is_word (dropWhile is_space r1))"
    by (rule drops)
  also have "\<dots> \<le> length (dropWhile is_space r1)"
    by (rule drops)
  also have "\<dots> \<le> length r1"
    by (rule drops)
  also have "\<dots> \<le> length (c # cs)"
    using r1 by (rule strip)
  finally show "(r, c # cs) \<in> measure length"
    by simp
qed simp_all

function scan_classes :: "string \<Rightarrow> string list" where
  "scan_classes [] = []"
| "scan_classes (c # cs) =
     (case match_class (c # cs) of
        Some (class_name, r) \<Rightarrow> class_name # scan_classes r
      | None \<Rightarrow> scan_classes cs)"
  by pat_completeness auto
termination
proof (relation "measure length")
  fix c :: char and cs m class_name r
  assume m: "match_class (c # cs) = Some m" and r: "(class_name, r) = m"
  have strip: "strip_prefix p s = Some t \<Longrightarrow> length t + length p = length s" for p s t
    by (induction p s rule: strip_prefix.induct) (auto split: if_splits)
  have drops: "length (dropWhile P s) \<le> length s" for P and s :: string
    by (induction s) simp_all
  obtain r1 where r1: "strip_prefix ''class'' (c # cs) = Some r1"
    using m by (auto simp: match_class_def split: option.splits)
  have "length r \<le> length (dropWhile is_space r1)"
    using m r r1 drops [of is_word "dropWhile is_space r1"]
    by (auto simp: match_class_def Let_def split: if_splits)
  also have "\<dots> \<le> length r1"
    by (rule drops)
  also have "\<dots> < length (c # cs)"
    using strip [OF r1] by simp
  finally show "(r, c # cs) \<in> measure length"
    by simp
qed simp_all

text \<open>
  With \<open>re.MULTILINE\<close> the anchor \<open>^\<close> holds at the start of the string and after each
  line feed; \<open>bol\<close> says whether the search is at such a place. After a match the search
  is behind a character that is no white space.
\<close>

function scan_imports :: "bool \<Rightarrow> string \<Rightarrow> string list" where
  "scan_imports bol [] = []"
| "scan_imports bol (c # cs) =
     (case (if bol then match_import (c # cs) else None) of
        Some (module, r) \<Rightarrow> module # scan_imports False r
      | None \<Rightarrow> scan_imports (c = CHR 0x0A) cs)"
  by pat_completeness auto
termination
proof (relation "measure (\<lambda>(bol, s). length s)")
  fix bol and c :: char and cs m module r
  assume m: "(if bol then match_import (c # cs) else None) = Some m" and r: "(module, r) = m"
  have strip: "strip_prefix p s = Some t \<Longrightarrow> length t + length p = length s" for p s t
    by (induction p s rule: strip_prefix.induct) (auto split: if_splits)
  have drops: "length (dropWhile P s) \<le> length s" for P and s :: string
    by (induction s) simp_all
  have tail: "length t < length s" if h: "match_import_tail s = Some (g, t)" for s g t
  proof -
    obtain r1 where r1: "strip_prefix ''import'' s = Some r1"
      using h by (auto simp: match_import_tail_def split: option.splits)
    have "length t \<le> length (dropWhile is_space r1)"
      using h r1 drops [of "\<lambda>c. \<not> is_space c" "dropWhile is_space r1"]
      by (auto simp: match_import_tail_def Let_def split: if_splits)
    also have "\<dots> \<le> length r1"
      by (rule drops)
    also have "\<dots> < length s"
      using strip [OF r1] by simp
    finally show ?thesis .
  qed
  have with_from: "length t < length s" if h: "match_import_from s = Some (g, t)" for s g t
  proof -
    obtain r1 where r1: "strip_prefix ''from'' s = Some r1"
      using h by (auto simp: match_import_from_def split: option.splits)
    let ?r3 = "dropWhile (\<lambda>c. \<not> is_space c) (dropWhile is_space r1)"
    obtain g2 where "match_import_tail (dropWhile is_space ?r3) = Some (g2, t)"
      using h r1
      by (auto simp: match_import_from_def Let_def split: if_splits option.splits)
    then have "length t < length (dropWhile is_space ?r3)"
      by (rule tail)
    also have "\<dots> \<le> length ?r3"
      by (rule drops)
    also have "\<dots> \<le> length (dropWhile is_space r1)"
      by (rule drops)
    also have "\<dots> \<le> length r1"
      by (rule drops)
    also have "\<dots> \<le> length s"
      using strip [OF r1] by simp
    finally show ?thesis .
  qed
  have "match_import (c # cs) = Some (module, r)"
    using m r by (auto split: if_splits)
  then have "length r < length (c # cs)"
    using tail [of "c # cs" module r] with_from [of "c # cs" module r]
    by (auto simp: match_import_def split: option.splits)
  then show "((False, r), (bol, c # cs)) \<in> measure (\<lambda>(bol, s). length s)"
    by simp
qed simp_all

section \<open>The feature analysis (sensai\_feature\_analysis.py)\<close>

text \<open>
  The entries of the result. An \<open>item\<close> is a dictionary with the keys \<open>name\<close>,
  \<open>type\<close> and, from a syntax tree only, \<open>line\<close>; it stands for \<open>var_info\<close>, for the
  entries of \<open>features_by_category\<close> and for the entries of \<open>functions\<close> and
  \<open>classes\<close>. The values of the further keys of \<open>func_info\<close> and \<open>class_info\<close>
  (\<open>args\<close>, \<open>decorators\<close>, \<open>bases\<close>, \<open>methods\<close>) are not stored, and neither is
  the copy of these two that goes to \<open>self.categories\<close>. An \<open>import_item\<close> has the keys
  \<open>module\<close>, \<open>alias\<close> (absent or \<open>None\<close>: \<open>None\<close>) and \<open>type\<close>.
\<close>

record item =
  item_name :: string
  item_type :: string
  item_line :: "nat option"

record import_item =
  import_module :: string
  import_alias :: "string option"
  import_type :: string

text \<open>
  The dictionary \<open>features\<close>. Its keys are \<open>file\<close>, \<open>functions\<close>, \<open>classes\<close>,
  \<open>imports\<close>, \<open>variables\<close> (the fields \<open>f_file\<close> to \<open>f_variables\<close>),
  \<open>features_by_category\<close> and, from the regular-expression scan only, \<open>note\<close> (the
  field \<open>f_note\<close>). \<open>features_by_category\<close> is a \<open>defaultdict(list)\<close>: the
  categories in the order in which they got their first entry, each with its entries.
\<close>

record features =
  f_file :: string
  f_functions :: "item list"
  f_classes :: "item list"
  f_imports :: "import_item list"
  f_variables :: "item list"
  features_by_category :: "(string \<times> item list) list"
  f_note :: "string option"

text \<open>\<open>d[category].append(entry)\<close> on a \<open>defaultdict(list)\<close>, and \<open>d[category]\<close>.\<close>

fun bucket_append :: "string \<Rightarrow> item \<Rightarrow> (string \<times> item list) list \<Rightarrow> (string \<times> item list) list" where
  "bucket_append category entry [] = [(category, [entry])]"
| "bucket_append category entry ((k, entries) # d) =
     (if k = category then (k, entries @ [entry]) # d
      else (k, entries) # bucket_append category entry d)"

definition bucket :: "(string \<times> item list) list \<Rightarrow> string \<Rightarrow> item list" where
  "bucket d category = (case map_of d category of Some entries \<Rightarrow> entries | None \<Rightarrow> [])"

definition add_to_category :: "string \<Rightarrow> item \<Rightarrow> features \<Rightarrow> features" where
  "add_to_category category entry feats =
     feats\<lparr>features_by_category := bucket_append category entry (features_by_category feats)\<rparr>"

text \<open>
  \<open>_analyze_with_regex\<close>: the three scans, one after the other. \<open>file_path.name\<close> is
  the base name of the path.
\<close>

definition regex_function :: "string \<Rightarrow> features \<Rightarrow> string \<Rightarrow> features" where
  "regex_function file_path feats func_name =
     (let category = categorize_feature func_name ''function'' [(''file'', basename file_path)]
      in add_to_category category
           \<lparr>item_name = func_name, item_type = ''function'', item_line = None\<rparr>
           (feats\<lparr>f_functions := f_functions feats
              @ [\<lparr>item_name = func_name, item_type = ''function'', item_line = None\<rparr>]\<rparr>))"

definition regex_class :: "string \<Rightarrow> features \<Rightarrow> string \<Rightarrow> features" where
  "regex_class file_path feats class_name =
     (let category = categorize_feature class_name ''class'' [(''file'', basename file_path)]
      in add_to_category category
           \<lparr>item_name = class_name, item_type = ''class'', item_line = None\<rparr>
           (feats\<lparr>f_classes := f_classes feats
              @ [\<lparr>item_name = class_name, item_type = ''class'', item_line = None\<rparr>]\<rparr>))"

definition analyze_with_regex :: "string \<Rightarrow> string \<Rightarrow> features" where
  "analyze_with_regex file_path content =
     (let feats = \<lparr>f_file = file_path, f_functions = [], f_classes = [], f_imports = [],
                    f_variables = [], features_by_category = [],
                    f_note = Some ''Regex-based analysis (file may be obfuscated)''\<rparr>;
          feats = feats\<lparr>f_imports :=
                    map (\<lambda>module. \<lparr>import_module = module, import_alias = None,
                                     import_type = ''import''\<rparr>)
                        (scan_imports True content)\<rparr>;
          feats = foldl (regex_function file_path) feats (scan_funcs content)
      in foldl (regex_class file_path) feats (scan_classes content))"

text \<open>
  The analysis of a syntax tree. The first loop over \<open>ast.walk(tree)\<close> collects the
  imports; \<open>module\<close> is \<open>node.module or ''\<close>.
\<close>

fun import_items :: "ast \<Rightarrow> import_item list" where
  "import_items (Import aliases) =
     map (\<lambda>alias. \<lparr>import_module = fst alias, import_alias = snd alias,
                    import_type = ''import''\<rparr>) aliases"
| "import_items (ImportFrom node_module aliases) =
     (let module = (case node_module of Some m \<Rightarrow> m | None \<Rightarrow> [])
      in map (\<lambda>alias. \<lparr>import_module = (if module \<noteq> [] then module @ ''.'' @ fst alias
                                          else fst alias),
                       import_alias = snd alias, import_type = ''import_from''\<rparr>) aliases)"
| "import_items node = []"

text \<open>
  The second loop: a function, a class, or the targets of an assignment. A variable is
  always recorded in \<open>variables\<close>; it is put into a category only when its name has
  more than three characters and the category is not \<open>utilities\<close>.

  For a function the loop first builds \<open>func_info\<close>, calling \<open>ast.unparse\<close> on every
  decorator, and for a class \<open>class_info\<close>, calling it on every base class.
  \<open>ast.unparse\<close> is recursive and raises \<open>RecursionError\<close> on an expression that is
  nested too deeply, although \<open>ast.parse\<close> has accepted it. What it does is an
  argument: \<open>unparsed node\<close> is the list of texts for the decorators of a function node
  or the bases of a class node, or \<open>None\<close> when one of the calls raises. The texts
  themselves are not stored in the model. A node whose visit raises gives \<open>None\<close>.
\<close>

fun visit_target :: "string \<Rightarrow> nat \<Rightarrow> features \<Rightarrow> ast \<Rightarrow> features" where
  "visit_target file_path lineno feats (Name ident) =
     (let var_info = \<lparr>item_name = ident, item_type = ''variable'', item_line = Some lineno\<rparr>;
          feats = feats\<lparr>f_variables := f_variables feats @ [var_info]\<rparr>
      in if length ident > 3 then
           (let category = categorize_feature ident ''variable'' [(''file'', basename file_path)]
            in if category \<noteq> ''utilities'' then add_to_category category var_info feats
               else feats)
         else feats)"
| "visit_target file_path lineno feats target = feats"

fun visit_node ::
    "(ast \<Rightarrow> string list option) \<Rightarrow> string \<Rightarrow> features \<Rightarrow> ast \<Rightarrow> features option" where
  "visit_node unparsed file_path feats (FunctionDef name lineno params children) =
     (case unparsed (FunctionDef name lineno params children) of
        None \<Rightarrow> None
      | Some decorators \<Rightarrow>
          (let func_info = \<lparr>item_name = name, item_type = ''function'', item_line = Some lineno\<rparr>;
               feats = feats\<lparr>f_functions := f_functions feats @ [func_info]\<rparr>;
               category = categorize_feature name ''function'' [(''file'', basename file_path)]
           in Some (add_to_category category
                \<lparr>item_name = name, item_type = ''function'', item_line = Some lineno\<rparr> feats)))"
| "visit_node unparsed file_path feats (ClassDef name lineno bases rest) =
     (case unparsed (ClassDef name lineno bases rest) of
        None \<Rightarrow> None
      | Some base_texts \<Rightarrow>
          (let class_info = \<lparr>item_name = name, item_type = ''class'', item_line = Some lineno\<rparr>;
               feats = feats\<lparr>f_classes := f_classes feats @ [class_info]\<rparr>;
               category = categorize_feature name ''class'' [(''file'', basename file_path)]
           in Some (add_to_category category
                \<lparr>item_name = name, item_type = ''class'', item_line = Some lineno\<rparr> feats)))"
| "visit_node unparsed file_path feats (Assign lineno targets v) =
     Some (foldl (visit_target file_path lineno) feats targets)"
| "visit_node unparsed file_path feats node = Some feats"

text \<open>The loop over the nodes, which ends at the first node whose visit raises.\<close>

fun visit_nodes ::
    "(ast \<Rightarrow> string list option) \<Rightarrow> string \<Rightarrow> features \<Rightarrow> ast list \<Rightarrow> features option" where
  "visit_nodes unparsed file_path feats [] = Some feats"
| "visit_nodes unparsed file_path feats (node # ns) =
     (case visit_node unparsed file_path feats node of
        None \<Rightarrow> None
      | Some feats' \<Rightarrow> visit_nodes unparsed file_path feats' ns)"

text \<open>
  \<open>analyze_python_file\<close>. What the interpreter does with the file is an argument:
  reading it raises (\<open>content\<close> is then not bound, and the scan gets the empty string);
  \<open>ast.parse\<close> raises \<open>SyntaxError\<close>, caught by the inner handler, or another
  exception, caught by the outer one; or \<open>ast.parse\<close> returns a tree, and
  \<open>ast.unparse\<close> behaves on its nodes as \<open>unparsed\<close> says. When the analysis of the
  tree raises, the outer handler returns the regular-expression scan of the content,
  and what the loops had collected is lost. Nothing else in the analysis of a tree
  raises: \<open>categorize_feature\<close> only returns keys of \<open>self.categories\<close>.
\<close>

datatype source =
    ReadFails
  | ParseSyntaxError string
  | ParseOtherError string
  | Parsed string ast "ast \<Rightarrow> string list option"

definition analyze_python_file :: "string \<Rightarrow> source \<Rightarrow> features" where
  "analyze_python_file file_path src =
     (case src of
        ReadFails \<Rightarrow> analyze_with_regex file_path []
      | ParseSyntaxError content \<Rightarrow> analyze_with_regex file_path content
      | ParseOtherError content \<Rightarrow> analyze_with_regex file_path content
      | Parsed content tree unparsed \<Rightarrow>
          (let feats = \<lparr>f_file = file_path, f_functions = [], f_classes = [], f_imports = [],
                         f_variables = [], features_by_category = [], f_note = None\<rparr>;
               feats = feats\<lparr>f_imports := concat (map import_items (walk tree))\<rparr>
           in case visit_nodes unparsed file_path feats (walk tree) of
                Some feats \<Rightarrow> feats
              | None \<Rightarrow> analyze_with_regex file_path content))"

section \<open>The Markdown reports\<close>


definition newline :: string where
  "newline = [CHR 0x0A]"


text \<open>
  \<open>write_to_serena\<close> (sensai\_feature\_analysis.py), the body of the loop over the
  categories: \<open>memory_content\<close> is the text so far, \<open>heading\<close> is
  \<open>category.replace('_', ' ').title()\<close>, \<open>count\<close> the number in the summary, and
  \<open>in_categories\<close> is \<open>results['categories'][category]\<close>, or \<open>None\<close> when the
  category is no key of it. A feature is read with \<open>feature.get('name', 'unknown')\<close>,
  \<open>feature.get('type', 'unknown')\<close> and \<open>'line' in feature\<close>.
\<close>

record feature =
  feature_name :: "string option"
  feature_type :: "string option"
  feature_line :: "nat option"



text \<open>
  \<open>write_enhanced_to_serena\<close> (enhanced\_sensai\_analysis.py), the body of the loop over
  \<open>feature_categories\<close>. An item is a dictionary, read with
  \<open>item.get('name', item.get('module', item.get('dependency', 'unknown')))\<close>, or a
  string.
\<close>

datatype entry =
    DictItem "string option" "string option" "string option"
  | StrItem string





section \<open>Quads from references (analyze\_kawaiigpt.py)\<close>

text \<open>
  A reference record is read with \<open>ref.get('name', '')\<close> and
  \<open>ref.get('location', {}).get('file', '')\<close>: \<open>ref_location\<close> is \<open>None\<close> without the
  key \<open>location\<close>, and \<open>Some None\<close> when the location has no key \<open>file\<close>.
\<close>

record reference =
  ref_name :: "string option"
  ref_location :: "string option option"
  ref_kind :: "string option"

fun extract_quads_from_references ::
    "reference list \<Rightarrow> string \<Rightarrow> string \<Rightarrow> string \<Rightarrow> fact list" where
  "extract_quads_from_references [] source_symbol file_path context_label = []"
| "extract_quads_from_references (ref # references) source_symbol file_path context_label =
     (let ref_symbol = (case ref_name ref of Some n \<Rightarrow> n | None \<Rightarrow> []);
          ref_file = (case ref_location ref of
                        Some (Some f) \<Rightarrow> f
                      | _ \<Rightarrow> [])
      in (if ref_symbol \<noteq> [] \<and> source_symbol \<noteq> [] then
            [\<lparr>subject = source_symbol, predicate = ''references'', object = ref_symbol,
              ctxt = Some context_label, graph = Some (file_path @ ''->'' @ ref_file)\<rparr>,
             \<lparr>subject = ref_symbol, predicate = ''referenced_by'', object = source_symbol,
              ctxt = Some context_label, graph = Some (ref_file @ ''->'' @ file_path)\<rparr>]
          else [])
         @ extract_quads_from_references references source_symbol file_path context_label)"

section \<open>Notions for the properties\<close>

subsection \<open>Facts and definitions of the extractor\<close>

text \<open>A fact with predicate \<open>is_a\<close> and object \<open>function\<close>.\<close>

definition is_function_fact :: "fact \<Rightarrow> bool" where
  "is_function_fact t = (predicate t = ''is_a'' \<and> object t = ''function'')"

text \<open>
  The number of \<open>FunctionDef\<close> nodes of a tree (the \<open>def\<close> statements), at any
  depth, and the number of \<open>AsyncFunctionDef\<close> nodes (the \<open>async def\<close> statements).
  The function definitions of a file are both.
\<close>

fun function_defs :: "ast \<Rightarrow> nat" where
  "function_defs (FunctionDef name lineno params children) =
     Suc (sum_list (map function_defs children))"
| "function_defs (AsyncFunctionDef name lineno params children) =
     sum_list (map function_defs children)"
| "function_defs (ClassDef name lineno bases rest) =
     sum_list (map function_defs bases) + sum_list (map function_defs rest)"
| "function_defs (Import aliases) = 0"
| "function_defs (ImportFrom module aliases) = 0"
| "function_defs (Assign lineno targets v) = sum_list (map function_defs targets) + function_defs v"
| "function_defs (Call func arguments) = function_defs func + sum_list (map function_defs arguments)"
| "function_defs (Name ident) = 0"
| "function_defs (Attribute v attr) = function_defs v"
| "function_defs (Other children) = sum_list (map function_defs children)"

fun async_function_defs :: "ast \<Rightarrow> nat" where
  "async_function_defs (FunctionDef name lineno params children) =
     sum_list (map async_function_defs children)"
| "async_function_defs (AsyncFunctionDef name lineno params children) =
     Suc (sum_list (map async_function_defs children))"
| "async_function_defs (ClassDef name lineno bases rest) =
     sum_list (map async_function_defs bases) + sum_list (map async_function_defs rest)"
| "async_function_defs (Import aliases) = 0"
| "async_function_defs (ImportFrom module aliases) = 0"
| "async_function_defs (Assign lineno targets v) =
     sum_list (map async_function_defs targets) + async_function_defs v"
| "async_function_defs (Call func arguments) =
     async_function_defs func + sum_list (map async_function_defs arguments)"
| "async_function_defs (Name ident) = 0"
| "async_function_defs (Attribute v attr) = async_function_defs v"
| "async_function_defs (Other children) = sum_list (map async_function_defs children)"

definition all_function_defs :: "ast \<Rightarrow> nat" where
  "all_function_defs tree = function_defs tree + async_function_defs tree"

definition function_facts :: "fact list \<Rightarrow> nat" where
  "function_facts facts = length (filter is_function_fact facts)"

text \<open>
  The facts of a class definition, and the plain names in a list of expressions (the
  base classes of a class, the targets of an assignment).
\<close>

definition is_class_fact :: "fact \<Rightarrow> bool" where
  "is_class_fact t = (predicate t = ''is_a'' \<and> object t = ''class'')"

definition is_inherits_fact :: "fact \<Rightarrow> bool" where
  "is_inherits_fact t = (predicate t = ''inherits_from'')"

fun plain_names :: "ast list \<Rightarrow> string list" where
  "plain_names [] = []"
| "plain_names (Name ident # bases) = ident # plain_names bases"
| "plain_names (base # bases) = plain_names bases"

fun is_name :: "ast \<Rightarrow> bool" where
  "is_name (Name ident) = True"
| "is_name node = False"

text \<open>
  The subject, predicate and object of a fact, and its graph label (empty when the key
  is absent).
\<close>

definition spo :: "fact \<Rightarrow> string \<times> string \<times> string" where
  "spo t = (subject t, predicate t, object t)"

definition graph_label :: "fact \<Rightarrow> string" where
  "graph_label t = (case graph t of Some g \<Rightarrow> g | None \<Rightarrow> [])"

text \<open>
  What \<open>ast.parse\<close> returns for the file \<open>def foo(a, b): pass\<close>: a \<open>Module\<close>
  whose body is one \<open>FunctionDef\<close>, with the children \<open>arguments\<close> (of two
  \<open>arg\<close> nodes) and \<open>Pass\<close>.
\<close>

definition def_foo :: ast where
  "def_foo = Other [FunctionDef ''foo'' 1 [''a'', ''b''] [Other [Other [], Other []], Other []]]"

text \<open>
  A target for which \<open>py_file.exists()\<close> returns, a target for which it returns
  \<open>True\<close>, the entry of \<open>files_analyzed\<close> for such a target, and the results of a
  run over targets for all of which \<open>py_file.exists()\<close> returns: the entries and the
  facts of those that exist, in order.
\<close>

definition exists_returns :: "target \<Rightarrow> bool" where
  "exists_returns t = (case exists_outcome t of ExistsRaises e \<Rightarrow> False | _ \<Rightarrow> True)"

definition is_present :: "target \<Rightarrow> bool" where
  "is_present t = (exists_outcome t = Exists)"

definition entry_of :: "target \<Rightarrow> string \<times> nat \<times> nat" where
  "entry_of t = (path t, length (triples (analyze_file (path t) (parsed t))),
                 length (quads (analyze_file (path t) (parsed t))))"

definition results_of :: "target list \<Rightarrow> results" where
  "results_of ts =
     \<lparr>all_triples = concat (map (\<lambda>t. triples (analyze_file (path t) (parsed t)))
                              (filter is_present ts)),
      all_quads = concat (map (\<lambda>t. quads (analyze_file (path t) (parsed t)))
                            (filter is_present ts)),
      files_analyzed = map entry_of (filter is_present ts)\<rparr>"

subsection \<open>Quads of a reference\<close>

text \<open>
  The pair of quads of one reference, a reference with a non-empty name, and a
  \<open>referenced_by\<close> quad that mirrors a \<open>references\<close> quad: subject and object
  exchanged, and the two files of the graph label exchanged.
\<close>

definition reference_quads :: "string \<Rightarrow> string \<Rightarrow> string \<Rightarrow> reference \<Rightarrow> fact list" where
  "reference_quads source_symbol file_path context_label ref =
     [\<lparr>subject = source_symbol, predicate = ''references'',
       object = (case ref_name ref of Some n \<Rightarrow> n | None \<Rightarrow> []),
       ctxt = Some context_label,
       graph = Some (file_path @ ''->'' @ (case ref_location ref of Some (Some f) \<Rightarrow> f | _ \<Rightarrow> []))\<rparr>,
      \<lparr>subject = (case ref_name ref of Some n \<Rightarrow> n | None \<Rightarrow> []),
       predicate = ''referenced_by'', object = source_symbol,
       ctxt = Some context_label,
       graph = Some ((case ref_location ref of Some (Some f) \<Rightarrow> f | _ \<Rightarrow> []) @ ''->'' @ file_path)\<rparr>]"

definition named :: "reference \<Rightarrow> bool" where
  "named ref = (case ref_name ref of Some n \<Rightarrow> n \<noteq> [] | None \<Rightarrow> False)"

definition mirrored :: "string \<Rightarrow> fact \<Rightarrow> fact \<Rightarrow> bool" where
  "mirrored file_path q q' =
     (predicate q' = ''referenced_by'' \<and> subject q' = object q \<and> object q' = subject q
      \<and> ctxt q' = ctxt q
      \<and> (\<exists>ref_file. graph q = Some (file_path @ ''->'' @ ref_file)
                     \<and> graph q' = Some (ref_file @ ''->'' @ file_path)))"

subsection \<open>The feature analysis\<close>

text \<open>
  Whether the outcome is a file that was read and did not parse, and the content that
  the regular-expression scan then gets.
\<close>

fun parse_fails :: "source \<Rightarrow> bool" where
  "parse_fails (ParseSyntaxError content) = True"
| "parse_fails (ParseOtherError content) = True"
| "parse_fails src = False"

fun content_of :: "source \<Rightarrow> string" where
  "content_of ReadFails = []"
| "content_of (ParseSyntaxError content) = content"
| "content_of (ParseOtherError content) = content"
| "content_of (Parsed content tree unparsed) = content"

text \<open>
  The \<open>var_info\<close> entries of a node: one per target of an assignment that is a plain
  name, in order. A variable is kept for its category when its name has more than
  three characters and the category is not \<open>utilities\<close>.
\<close>

fun variables_of :: "ast \<Rightarrow> item list" where
  "variables_of (Assign lineno targets v) =
     map (\<lambda>ident. \<lparr>item_name = ident, item_type = ''variable'', item_line = Some lineno\<rparr>)
         (plain_names targets)"
| "variables_of node = []"

definition is_variable :: "item \<Rightarrow> bool" where
  "is_variable entry = (item_type entry = ''variable'')"

definition category_of :: "string \<Rightarrow> item \<Rightarrow> string" where
  "category_of file_path entry =
     categorize_feature (item_name entry) (item_type entry) [(''file'', basename file_path)]"

definition kept :: "string \<Rightarrow> item \<Rightarrow> bool" where
  "kept file_path entry =
     (length (item_name entry) > 3 \<and> category_of file_path entry \<noteq> ''utilities'')"

text \<open>Every entry of every category, whatever its category.\<close>

definition all_entries :: "(string \<times> item list) list \<Rightarrow> item list" where
  "all_entries d = concat (map snd d)"

text \<open>What one target adds.\<close>

definition target_variables :: "nat \<Rightarrow> ast \<Rightarrow> item list" where
  "target_variables lineno target =
     (case target of
        Name ident \<Rightarrow> [\<lparr>item_name = ident, item_type = ''variable'', item_line = Some lineno\<rparr>]
      | _ \<Rightarrow> [])"

text \<open>
  A node at which the analysis raises, and a tree whose analysis raises: one with such a
  node among those that \<open>ast.walk\<close> yields.
\<close>

fun raises_at :: "(ast \<Rightarrow> string list option) \<Rightarrow> ast \<Rightarrow> bool" where
  "raises_at unparsed (FunctionDef name lineno params children) =
     (unparsed (FunctionDef name lineno params children) = None)"
| "raises_at unparsed (ClassDef name lineno bases rest) =
     (unparsed (ClassDef name lineno bases rest) = None)"
| "raises_at unparsed node = False"

definition analysis_raises :: "(ast \<Rightarrow> string list option) \<Rightarrow> ast \<Rightarrow> bool" where
  "analysis_raises unparsed tree = list_ex (raises_at unparsed) (walk tree)"

text \<open>
  A file of two lines: a class whose base is the attribute chain
  \<open>a.b.b. ... .b\<close> with 600 attributes, and the assignment \<open>config_path = 1\<close>.
  \<open>ast.parse\<close> accepts it and \<open>ast.unparse\<close> raises \<open>RecursionError\<close> on the base; no
  other node of the tree has decorators or bases.
\<close>

fun attribute_chain :: "nat \<Rightarrow> ast" where
  "attribute_chain 0 = Name ''a''"
| "attribute_chain (Suc n) = Attribute (attribute_chain n) ''b''"

definition deep_class :: ast where
  "deep_class = ClassDef ''Deep'' 1 [attribute_chain 600] [Other []]"

definition deep_tree :: ast where
  "deep_tree = Other [deep_class, Assign 2 [Name ''config_path''] (Other [])]"

definition deep_content :: string where
  "deep_content =
     ''class Deep(a'' @ concat (replicate 600 ''.b'') @ ''): pass'' @ newline
     @ ''config_path = 1''"

definition deep_unparsed :: "ast \<Rightarrow> string list option" where
  "deep_unparsed node = (if node = deep_class then None else Some [])"

section \<open>Properties of the categorizer\<close>

lemma lower_keeps_keyword:
  assumes "sublist kw name" and "py_lower kw = kw"
  shows "str_in kw (py_lower name)"
proof -
  have "sublist (map lower_char kw) (map lower_char name)"
    using assms(1) by (rule map_mono_sublist)
  then show ?thesis
    using assms(2) by (simp add: py_lower_def str_in_def)
qed

lemma categorize_feature_is_first_match:
  "categorize_feature name ftype ctx = first_matching_label (py_lower name)"
  by (simp add: categorize_feature_def first_matching_label_def keyword_rules_def
      rule_matches_def any_keyword_def str_in_def Let_def)

lemma categorize_feature_label:
  "categorize_feature name ftype ctx \<in> set categories"
  by (simp add: categorize_feature_def categories_def Let_def)

text \<open>
  C1: for every input string \<open>categorize_feature\<close> returns one label of the fixed
  category vocabulary, and that label is the one of the first rule, in the fixed order,
  with a keyword occurring in the lower-cased name. In particular a name containing both
  \<open>install\<close> and \<open>config\<close> gets \<open>installation\<close>, and a name matching no rule gets
  \<open>utilities\<close>.
\<close>

theorem categorize_feature_first_match:
  "categorize_feature name ftype ctx \<in> set categories
   \<and> categorize_feature name ftype ctx = first_matching_label (py_lower name)
   \<and> (sublist ''install'' name \<and> sublist ''config'' name
        \<longrightarrow> categorize_feature name ftype ctx = ''installation'')
   \<and> ((\<forall>rule \<in> set keyword_rules. \<not> rule_matches (py_lower name) rule)
        \<longrightarrow> categorize_feature name ftype ctx = ''utilities'')"
proof (intro conjI impI)
  show "categorize_feature name ftype ctx \<in> set categories"
    by (rule categorize_feature_label)
  show "categorize_feature name ftype ctx = first_matching_label (py_lower name)"
    by (rule categorize_feature_is_first_match)
next
  assume "sublist ''install'' name \<and> sublist ''config'' name"
  then have "sublist ''install'' name" by simp
  moreover have "py_lower ''install'' = ''install''"
    by (simp add: py_lower_def lower_char_def)
  ultimately have "str_in ''install'' (py_lower name)"
    by (rule lower_keeps_keyword)
  then show "categorize_feature name ftype ctx = ''installation''"
    by (simp add: categorize_feature_def any_keyword_def Let_def)
next
  assume "\<forall>rule \<in> set keyword_rules. \<not> rule_matches (py_lower name) rule"
  then have "find (rule_matches (py_lower name)) keyword_rules = None"
    by (simp add: find_None_iff)
  then show "categorize_feature name ftype ctx = ''utilities''"
    by (simp add: categorize_feature_is_first_match first_matching_label_def)
qed

theorem categorize_feature_first_match_witness:
  "categorize_feature ''reinstall_config'' ''function'' [(''file'', ''install.py'')] = ''installation''
   \<and> categorize_feature ''main'' ''function'' [(''file'', ''install.py'')] = ''utilities''"
proof -
  have a: "sublist ''install'' ''reinstall_config'' \<and> sublist ''config'' ''reinstall_config''"
    by code_simp
  have b: "\<forall>rule \<in> set keyword_rules. \<not> rule_matches (py_lower ''main'') rule"
    by code_simp
  show ?thesis
    using a b
      categorize_feature_first_match [of "''reinstall_config''" "''function''" "[(''file'', ''install.py'')]"]
      categorize_feature_first_match [of "''main''" "''function''" "[(''file'', ''install.py'')]"]
    by blast
qed

section \<open>Function definitions and their facts\<close>

lemma function_facts_Nil: "function_facts [] = 0"
  by (simp add: function_facts_def)

lemma function_facts_append: "function_facts (xs @ ys) = function_facts xs + function_facts ys"
  by (simp add: function_facts_def)

lemma function_facts_params:
  "function_facts (map (\<lambda>arg. \<lparr>subject = name, predicate = ''has_parameter'', object = arg,
                   ctxt = c, graph = g\<rparr>) params) = 0"
  by (induction params) (simp_all add: function_facts_def is_function_fact_def)

lemma function_facts_bases:
  "function_facts (concat (map (\<lambda>base. case base of
                      Name ident \<Rightarrow>
                        [\<lparr>subject = name, predicate = ''inherits_from'', object = ident,
                          ctxt = c, graph = g\<rparr>]
                    | _ \<Rightarrow> []) bases)) = 0"
  by (induction bases) (simp_all add: function_facts_def is_function_fact_def split: ast.splits)

lemma function_facts_targets:
  "function_facts (concat (map (\<lambda>target. case target of
                    Name ident \<Rightarrow>
                      [\<lparr>subject = ident, predicate = ''assigned_in'', object = b,
                        ctxt = c, graph = g\<rparr>]
                  | _ \<Rightarrow> []) targets)) = 0"
  by (induction targets) (simp_all add: function_facts_def is_function_fact_def split: ast.splits)

lemma function_facts_imports:
  "function_facts (map (\<lambda>alias. \<lparr>subject = s, predicate = ''imports'', object = f alias,
                    ctxt = c, graph = g\<rparr>) aliases) = 0"
  "function_facts (map (\<lambda>alias. \<lparr>subject = s, predicate = ''imports_from'', object = f alias,
                    ctxt = c, graph = g\<rparr>) aliases) = 0"
  by (induction aliases) (simp_all add: function_facts_def is_function_fact_def)

lemma function_facts_node:
  "function_facts (extract_triples_from_ast node file_path) =
     (case node of FunctionDef name lineno params children \<Rightarrow> 1 | _ \<Rightarrow> 0)"
proof (cases node)
  case (FunctionDef name lineno params children)
  then show ?thesis
    using function_facts_params [of name "Some file_path" "Some ''code_structure''" params]
    by (simp add: function_facts_def is_function_fact_def)
next
  case (ClassDef name lineno bases rest)
  then show ?thesis
    using function_facts_bases [of name "Some file_path" "Some ''inheritance''" bases]
    by (simp add: function_facts_def is_function_fact_def)
next
  case (Import aliases)
  then show ?thesis by (simp add: function_facts_imports)
next
  case (ImportFrom module aliases)
  then show ?thesis by (simp add: function_facts_imports function_facts_Nil split: option.splits)
next
  case (Assign lineno targets v)
  then show ?thesis by (simp add: function_facts_targets)
next
  case (Call func arguments)
  then show ?thesis by (simp add: function_facts_def is_function_fact_def split: ast.splits)
qed (simp_all add: function_facts_Nil)

lemma function_defs_children:
  "function_defs node =
     (case node of FunctionDef name lineno params children \<Rightarrow> 1 | _ \<Rightarrow> 0)
     + sum_list (map function_defs (iter_child_nodes node))"
  by (cases node) (simp_all add: comp_def)

lemma function_facts_walk_queue:
  "function_facts (concat (map (\<lambda>node. extract_triples_from_ast node file_path) (walk_queue todo)))
     = sum_list (map function_defs todo)"
proof (induction todo rule: walk_queue.induct)
  case 1
  show ?case by (simp add: function_facts_def)
next
  case (2 node todo)
  have "function_defs node =
     function_facts (extract_triples_from_ast node file_path)
     + sum_list (map function_defs (iter_child_nodes node))"
    using function_defs_children [of node] by (simp add: function_facts_node)
  with 2 show ?case
    by (simp add: function_facts_append)
qed

text \<open>
  C2, as amended: for every file that parses, the number of facts with predicate
  \<open>is_a\<close> and object \<open>function\<close> is the number of \<open>def\<close> statements
  (\<open>FunctionDef\<close> nodes) of the file, at the top level or nested at any depth. An
  \<open>async def\<close> is not among them.
\<close>

theorem function_facts_count_plain_defs:
  "function_facts (triples (analyze_file file_path (Inr tree))) = function_defs tree"
  using function_facts_walk_queue [of file_path "[tree]"]
  by (simp add: analyze_file_def walk_def Let_def)

theorem function_facts_count_plain_defs_witness:
  "function_facts (triples (analyze_file ''install.py''
      (Inr (Other [FunctionDef ''outer'' 1 [''x'']
                     [Other [Other []],
                      FunctionDef ''inner'' 2 [] [Other [], Other []],
                      AsyncFunctionDef ''later'' 3 [] [Other [], Other []]]])))) = 2"
  using function_facts_count_plain_defs [of "''install.py''"
      "Other [FunctionDef ''outer'' 1 [''x'']
                     [Other [Other []],
                      FunctionDef ''inner'' 2 [] [Other [], Other []],
                      AsyncFunctionDef ''later'' 3 [] [Other [], Other []]]]"]
  by simp

text \<open>
  The file \<open>async def main(): pass\<close> parses to a module with one
  \<open>AsyncFunctionDef\<close>: it has one function definition and the extractor emits no
  \<open>is_a:function\<close> fact for it.
\<close>

theorem async_def_counterexample:
  "function_facts (triples (analyze_file ''kawai.py''
      (Inr (Other [AsyncFunctionDef ''main'' 1 [] [Other [], Other []]]))))
   \<noteq> all_function_defs (Other [AsyncFunctionDef ''main'' 1 [] [Other [], Other []]])"
  by (simp add: analyze_file_def walk_def Let_def function_facts_def all_function_defs_def)

section \<open>Class definitions\<close>

lemma inherits_of_bases:
  "filter is_inherits_fact (concat (map (\<lambda>base. case base of
                      Name ident \<Rightarrow>
                        [\<lparr>subject = name, predicate = ''inherits_from'', object = ident,
                          ctxt = c, graph = g\<rparr>]
                    | _ \<Rightarrow> []) bases))
   = map (\<lambda>ident. \<lparr>subject = name, predicate = ''inherits_from'', object = ident,
                          ctxt = c, graph = g\<rparr>) (plain_names bases)"
  by (induction bases rule: plain_names.induct) (simp_all add: is_inherits_fact_def)

lemma class_facts_of_bases:
  "filter is_class_fact (concat (map (\<lambda>base. case base of
                      Name ident \<Rightarrow>
                        [\<lparr>subject = name, predicate = ''inherits_from'', object = ident,
                          ctxt = c, graph = g\<rparr>]
                    | _ \<Rightarrow> []) bases)) = []"
  by (induction bases rule: plain_names.induct) (simp_all add: is_class_fact_def)

lemma length_plain_names:
  "length (plain_names bases) = length (filter is_name bases)"
  by (induction bases rule: plain_names.induct) simp_all

lemma plain_names_none:
  "\<forall>base \<in> set bases. \<not> is_name base \<Longrightarrow> plain_names bases = []"
  by (induction bases rule: plain_names.induct) simp_all

text \<open>
  C3: for every class definition the extractor emits one \<open>is_a:class\<close> fact and one
  \<open>inherits_from\<close> fact per base class that is a plain name, in the order of the bases,
  and none for a base that is an attribute access or a computed expression.
\<close>

theorem class_definition_facts:
  "filter is_class_fact (extract_triples_from_ast (ClassDef name lineno bases rest) file_path)
     = [\<lparr>subject = name, predicate = ''is_a'', object = ''class'',
         ctxt = Some file_path, graph = Some ''code_structure''\<rparr>]
   \<and> filter is_inherits_fact (extract_triples_from_ast (ClassDef name lineno bases rest) file_path)
     = map (\<lambda>ident. \<lparr>subject = name, predicate = ''inherits_from'', object = ident,
                      ctxt = Some file_path, graph = Some ''inheritance''\<rparr>)
           (plain_names bases)
   \<and> length (filter is_inherits_fact
               (extract_triples_from_ast (ClassDef name lineno bases rest) file_path))
     = length (filter is_name bases)
   \<and> ((\<forall>base \<in> set bases. \<not> is_name base)
        \<longrightarrow> filter is_inherits_fact
              (extract_triples_from_ast (ClassDef name lineno bases rest) file_path) = [])"
proof -
  let ?facts = "extract_triples_from_ast (ClassDef name lineno bases rest) file_path"
  have a: "filter is_class_fact ?facts
     = [\<lparr>subject = name, predicate = ''is_a'', object = ''class'',
         ctxt = Some file_path, graph = Some ''code_structure''\<rparr>]"
    by (simp add: class_facts_of_bases) (simp add: is_class_fact_def)
  have b: "filter is_inherits_fact ?facts
     = map (\<lambda>ident. \<lparr>subject = name, predicate = ''inherits_from'', object = ident,
                      ctxt = Some file_path, graph = Some ''inheritance''\<rparr>)
           (plain_names bases)"
    by (simp add: inherits_of_bases) (simp add: is_inherits_fact_def)
  have c: "length (filter is_inherits_fact ?facts) = length (filter is_name bases)"
    using b by (simp add: length_plain_names)
  have d: "(\<forall>base \<in> set bases. \<not> is_name base) \<longrightarrow> filter is_inherits_fact ?facts = []"
    using b by (simp add: plain_names_none)
  from a b c d show ?thesis by blast
qed

theorem class_definition_facts_witness:
  "map spo (extract_triples_from_ast
      (ClassDef ''Bar'' 1 [Name ''Base'', Attribute (Name ''abc'') ''ABC'', Call (Name ''mixin'') []]
         [Other []]) ''kawai.py'')
     = [(''Bar'', ''is_a'', ''class''), (''Bar'', ''inherits_from'', ''Base'')]
   \<and> filter is_inherits_fact (extract_triples_from_ast
      (ClassDef ''Baz'' 3 [Attribute (Name ''abc'') ''ABC''] [Other []]) ''kawai.py'') = []"
proof -
  have h: "\<forall>base \<in> set [Attribute (Name ''abc'') ''ABC'']. \<not> is_name base"
    by simp
  have "filter is_inherits_fact (extract_triples_from_ast
      (ClassDef ''Baz'' 3 [Attribute (Name ''abc'') ''ABC''] [Other []]) ''kawai.py'') = []"
    using h class_definition_facts [of "''Baz''" 3 "[Attribute (Name ''abc'') ''ABC'']" "[Other []]" "''kawai.py''"]
    by blast
  then show ?thesis by (simp add: spo_def)
qed

section \<open>Quads\<close>

lemma quads_map: "extract_quads_from_relationships facts file_path = map (quad_of file_path) facts"
  by (induction facts) simp_all

lemma extracted_graph_label:
  "t \<in> set (extract_triples_from_ast node file_path) \<Longrightarrow> graph t \<noteq> None \<and> graph_label t \<noteq> []"
  by (cases node) (auto simp: graph_label_def split: ast.splits option.splits if_splits)

text \<open>
  A fact whose graph label is the empty string is converted to a quad whose graph label
  is empty too: the default \<open>default\<close> is used only when the key is absent.
\<close>

theorem quads_empty_graph_counterexample:
  "map graph_label (extract_quads_from_relationships
      [\<lparr>subject = ''main'', predicate = ''is_a'', object = ''function'',
        ctxt = Some ''kawai.py'', graph = Some ''''\<rparr>] ''kawai.py'') = ['''']"
  by (simp add: quad_of_def graph_label_def)

text \<open>
  C4, as amended: the conversion gives one quad per fact, in order, with the subject,
  predicate and object of its fact; the quad's graph is the fact's graph, or
  \<open>default\<close> when the fact has none. So it is non-empty for every fact whose own graph
  is not the empty string, and for every quad that \<open>analyze_file\<close> returns.
\<close>

theorem quads_preserve_facts:
  "length (extract_quads_from_relationships facts file_path) = length facts
   \<and> map spo (extract_quads_from_relationships facts file_path) = map spo facts
   \<and> map graph (extract_quads_from_relationships facts file_path)
     = map (\<lambda>t. Some (case graph t of Some g \<Rightarrow> g | None \<Rightarrow> ''default'')) facts
   \<and> ((\<forall>t \<in> set facts. graph t \<noteq> Some [])
        \<longrightarrow> (\<forall>q \<in> set (extract_quads_from_relationships facts file_path). graph_label q \<noteq> []))
   \<and> (\<forall>q \<in> set (quads (analyze_file file_path outcome)). graph_label q \<noteq> [])"
proof (intro conjI impI)
  show "length (extract_quads_from_relationships facts file_path) = length facts"
    by (simp add: quads_map)
  show "map spo (extract_quads_from_relationships facts file_path) = map spo facts"
    by (simp add: quads_map spo_def quad_of_def)
  show "map graph (extract_quads_from_relationships facts file_path)
     = map (\<lambda>t. Some (case graph t of Some g \<Rightarrow> g | None \<Rightarrow> ''default'')) facts"
    by (simp add: quads_map quad_of_def)
next
  assume "\<forall>t \<in> set facts. graph t \<noteq> Some []"
  then show "\<forall>q \<in> set (extract_quads_from_relationships facts file_path). graph_label q \<noteq> []"
    by (auto simp: quads_map graph_label_def quad_of_def split: option.splits)
next
  show "\<forall>q \<in> set (quads (analyze_file file_path outcome)). graph_label q \<noteq> []"
  proof (cases outcome)
    case (Inl e)
    then show ?thesis by (simp add: analyze_file_def)
  next
    case (Inr tree)
    have "graph_label (quad_of file_path t) \<noteq> []"
      if "t \<in> set (extract_triples_from_ast node file_path)" for t node
      using extracted_graph_label [OF that]
      by (auto simp: graph_label_def quad_of_def split: option.splits)
    with Inr show ?thesis
      by (auto simp: analyze_file_def Let_def quads_map)
  qed
qed

theorem quads_preserve_facts_witness:
  "map graph (extract_quads_from_relationships
      [\<lparr>subject = ''foo'', predicate = ''is_a'', object = ''function'',
        ctxt = Some ''install.py'', graph = Some ''code_structure''\<rparr>,
       \<lparr>subject = ''foo'', predicate = ''related_to'', object = ''bar'',
        ctxt = None, graph = None\<rparr>] ''install.py'')
     = [Some ''code_structure'', Some ''default'']
   \<and> [] \<notin> graph_label ` set (extract_quads_from_relationships
      [\<lparr>subject = ''foo'', predicate = ''is_a'', object = ''function'',
        ctxt = Some ''install.py'', graph = Some ''code_structure''\<rparr>,
       \<lparr>subject = ''foo'', predicate = ''related_to'', object = ''bar'',
        ctxt = None, graph = None\<rparr>] ''install.py'')
   \<and> quads (analyze_file ''install.py'' (Inr def_foo)) \<noteq> []
   \<and> [] \<notin> graph_label ` set (quads (analyze_file ''install.py'' (Inr def_foo)))"
proof -
  let ?facts = "[\<lparr>subject = ''foo'', predicate = ''is_a'', object = ''function'',
        ctxt = Some ''install.py'', graph = Some ''code_structure''\<rparr>,
       \<lparr>subject = ''foo'', predicate = ''related_to'', object = ''bar'',
        ctxt = None, graph = None\<rparr>]"
  note inst = quads_preserve_facts [of ?facts "''install.py''" "Inr def_foo"]
  have h: "\<forall>t \<in> set ?facts. graph t \<noteq> Some []"
    by simp
  have "\<forall>q \<in> set (extract_quads_from_relationships ?facts ''install.py''). graph_label q \<noteq> []"
    using h inst by blast
  then have a: "[] \<notin> graph_label ` set (extract_quads_from_relationships ?facts ''install.py'')"
    by auto
  have b: "map graph (extract_quads_from_relationships ?facts ''install.py'')
      = [Some ''code_structure'', Some ''default'']"
    using inst by simp
  have "\<forall>q \<in> set (quads (analyze_file ''install.py'' (Inr def_foo))). graph_label q \<noteq> []"
    using inst by blast
  then have c: "[] \<notin> graph_label ` set (quads (analyze_file ''install.py'' (Inr def_foo)))"
    by auto
  have d: "quads (analyze_file ''install.py'' (Inr def_foo)) \<noteq> []"
    by (simp add: analyze_file_def def_foo_def walk_def Let_def)
  from a b c d show ?thesis by blast
qed

section \<open>The file with one function\<close>

text \<open>
  C5: for the file \<open>def foo(a, b): pass\<close> the triples are exactly
  \<open>(foo, is_a, function)\<close>, \<open>(foo, has_parameter, a)\<close> and
  \<open>(foo, has_parameter, b)\<close>, and the quads repeat them.
\<close>

theorem def_foo_facts:
  "map spo (triples (analyze_file file_path (Inr def_foo)))
     = [(''foo'', ''is_a'', ''function''), (''foo'', ''has_parameter'', ''a''),
        (''foo'', ''has_parameter'', ''b'')]
   \<and> map spo (quads (analyze_file file_path (Inr def_foo)))
     = [(''foo'', ''is_a'', ''function''), (''foo'', ''has_parameter'', ''a''),
        (''foo'', ''has_parameter'', ''b'')]"
  by (simp add: analyze_file_def def_foo_def walk_def Let_def spo_def quad_of_def)

section \<open>Files that cannot be analysed\<close>

lemma analyze_targets_returning:
  "\<forall>t \<in> set ts. exists_returns t \<Longrightarrow>
   analyze_targets res ts
     = Inr \<lparr>all_triples = all_triples res @ all_triples (results_of ts),
            all_quads = all_quads res @ all_quads (results_of ts),
            files_analyzed = files_analyzed res @ files_analyzed (results_of ts)\<rparr>"
proof (induction ts arbitrary: res)
  case Nil
  show ?case by (simp add: results_of_def)
next
  case (Cons t ts)
  from Cons.prems have rest: "\<forall>t \<in> set ts. exists_returns t"
    by simp
  from Cons.prems have "exists_outcome t = Exists \<or> exists_outcome t = Missing"
    by (cases "exists_outcome t") (simp_all add: exists_returns_def)
  then show ?case
  proof
    assume "exists_outcome t = Exists"
    then show ?thesis
      by (simp add: analyze_target_def Let_def Cons.IH [OF rest] results_of_def
          is_present_def entry_of_def)
  next
    assume "exists_outcome t = Missing"
    then show ?thesis
      by (simp add: analyze_target_def Cons.IH [OF rest] results_of_def is_present_def)
  qed
qed

text \<open>
  Two runs over two files, the second being the file \<open>def foo(a, b): pass\<close>. When the
  first file is missing, the loop passes over it: the run has no record of it, and so
  none with an \<open>error\<close> key. When \<open>py_file.exists()\<close> raises on the first file, the
  exception leaves the loop and the second file is never analysed.
\<close>

theorem missing_file_counterexample:
  "map_sum id files_analyzed (analyze_all
      [\<lparr>path = ''install.py'', exists_outcome = Missing,
        parsed = Inl ''[Errno 2] No such file or directory''\<rparr>,
       \<lparr>path = ''kawai.py'', exists_outcome = Exists, parsed = Inr def_foo\<rparr>])
     = Inr [(''kawai.py'', 3, 3)]
   \<and> analyze_all
      [\<lparr>path = ''install.py'', exists_outcome = ExistsRaises ''[Errno 13] Permission denied'',
        parsed = Inl ''[Errno 13] Permission denied''\<rparr>,
       \<lparr>path = ''kawai.py'', exists_outcome = Exists, parsed = Inr def_foo\<rparr>]
     = Inl ''[Errno 13] Permission denied''"
  by (simp add: analyze_all_def analyze_target_def analyze_file_def def_foo_def walk_def Let_def)

text \<open>
  C7, as amended: when opening, reading or parsing a file raises, \<open>analyze_file\<close> returns
  a record with the \<open>error\<close> key and empty triple and quad lists; for a file that
  exists the loop then adds its entry with both counts zero and keeps what it had; a
  file that does not exist is passed over without a record. In a run in which
  \<open>py_file.exists()\<close> returns for every file, no exception leaves the loop and every
  file of the sequence that exists has its entry and its facts in the result, whatever
  happened to the files before it.
\<close>

theorem failing_file_does_not_stop_the_run:
  "(parsed t = Inl e \<longrightarrow>
      analyze_file (path t) (parsed t)
        = \<lparr>filename = path t, error = Some e, triples = [], quads = []\<rparr>)
   \<and> (exists_outcome t = Exists \<and> parsed t = Inl e \<longrightarrow>
      analyze_target res t
        = Inr (res\<lparr>files_analyzed := files_analyzed res @ [(path t, 0, 0)]\<rparr>))
   \<and> (exists_outcome t = Missing \<longrightarrow> analyze_target res t = Inr res)
   \<and> ((\<forall>f \<in> set (before @ t # after). exists_returns f) \<longrightarrow>
      analyze_all (before @ t # after) = Inr (results_of (before @ t # after))
      \<and> files_analyzed (results_of (before @ t # after))
        = map entry_of (filter is_present before) @ map entry_of (filter is_present [t])
          @ map entry_of (filter is_present after))"
proof (intro conjI impI)
  assume "parsed t = Inl e"
  then show "analyze_file (path t) (parsed t)
        = \<lparr>filename = path t, error = Some e, triples = [], quads = []\<rparr>"
    by (simp add: analyze_file_def)
next
  assume "exists_outcome t = Exists \<and> parsed t = Inl e"
  then show "analyze_target res t
        = Inr (res\<lparr>files_analyzed := files_analyzed res @ [(path t, 0, 0)]\<rparr>)"
    by (simp add: analyze_target_def analyze_file_def)
next
  assume "exists_outcome t = Missing"
  then show "analyze_target res t = Inr res"
    by (simp add: analyze_target_def)
next
  assume "\<forall>f \<in> set (before @ t # after). exists_returns f"
  then show "analyze_all (before @ t # after) = Inr (results_of (before @ t # after))"
    unfolding analyze_all_def
    by (simp only: analyze_targets_returning) simp
next
  show "files_analyzed (results_of (before @ t # after))
        = map entry_of (filter is_present before) @ map entry_of (filter is_present [t])
          @ map entry_of (filter is_present after)"
    by (simp add: results_of_def)
qed

theorem failing_file_does_not_stop_the_run_witness:
  "error (analyze_file ''install.py'' (Inl ''[Errno 13] Permission denied''))
     = Some ''[Errno 13] Permission denied''
   \<and> map_sum id files_analyzed (analyze_all
        [\<lparr>path = ''install.py'', exists_outcome = Exists,
          parsed = Inl ''[Errno 13] Permission denied''\<rparr>,
         \<lparr>path = ''setup.py'', exists_outcome = Missing,
          parsed = Inl ''[Errno 2] No such file or directory''\<rparr>,
         \<lparr>path = ''kawai.py'', exists_outcome = Exists, parsed = Inr def_foo\<rparr>])
     = Inr [(''install.py'', 0, 0), (''kawai.py'', 3, 3)]"
proof -
  let ?t = "\<lparr>path = ''install.py'', exists_outcome = Exists,
             parsed = Inl ''[Errno 13] Permission denied''\<rparr>"
  let ?m = "\<lparr>path = ''setup.py'', exists_outcome = Missing,
             parsed = Inl ''[Errno 2] No such file or directory''\<rparr>"
  let ?u = "\<lparr>path = ''kawai.py'', exists_outcome = Exists, parsed = Inr def_foo\<rparr>"
  let ?res = "\<lparr>all_triples = [], all_quads = [], files_analyzed = []\<rparr>"
  note inst = failing_file_does_not_stop_the_run
      [of ?t "''[Errno 13] Permission denied''" ?res "[]" "[?m, ?u]"]
  have h: "parsed ?t = Inl ''[Errno 13] Permission denied''"
    by simp
  have a: "analyze_file (path ?t) (parsed ?t)
     = \<lparr>filename = path ?t, error = Some ''[Errno 13] Permission denied'', triples = [],
        quads = []\<rparr>"
    using h inst by blast
  have r: "\<forall>f \<in> set ([] @ ?t # [?m, ?u]). exists_returns f"
    by (simp add: exists_returns_def)
  have b: "analyze_all ([] @ ?t # [?m, ?u]) = Inr (results_of ([] @ ?t # [?m, ?u]))"
    using r inst by blast
  have c: "files_analyzed (results_of ([] @ ?t # [?m, ?u]))
      = map entry_of (filter is_present []) @ map entry_of (filter is_present [?t])
        @ map entry_of (filter is_present [?m, ?u])"
    using r inst by blast
  have d: "entry_of ?u = (''kawai.py'', 3, 3)"
    by (simp add: entry_of_def analyze_file_def def_foo_def walk_def Let_def)
  have e: "entry_of ?t = (''install.py'', 0, 0)"
    by (simp add: entry_of_def analyze_file_def)
  from a have "error (analyze_file ''install.py'' (Inl ''[Errno 13] Permission denied''))
     = Some ''[Errno 13] Permission denied''"
    by simp
  moreover from b c d e have "map_sum id files_analyzed (analyze_all [?t, ?m, ?u])
     = Inr [(''install.py'', 0, 0), (''kawai.py'', 3, 3)]"
    by (simp add: is_present_def)
  ultimately show ?thesis by blast
qed

section \<open>Quads from references\<close>

lemma quads_from_references_eq:
  "extract_quads_from_references refs source_symbol file_path c
     = (if source_symbol = [] then []
        else concat (map (reference_quads source_symbol file_path c) (filter named refs)))"
proof (induction refs)
  case Nil
  show ?case by simp
next
  case (Cons ref refs)
  have "extract_quads_from_references (ref # refs) source_symbol file_path c
      = (if named ref \<and> source_symbol \<noteq> [] then reference_quads source_symbol file_path c ref
         else [])
        @ extract_quads_from_references refs source_symbol file_path c"
    by (simp add: reference_quads_def named_def Let_def split: option.splits)
  with Cons.IH show ?case by simp
qed

lemma length_concat_pairs:
  "length (concat (map (reference_quads s f c) refs)) = 2 * length refs"
  by (induction refs) (simp_all add: reference_quads_def)

lemma mirrored_in_pairs:
  "q \<in> set (concat (map (reference_quads s f c) refs)) \<Longrightarrow> predicate q = ''references''
     \<Longrightarrow> \<exists>q' \<in> set (concat (map (reference_quads s f c) refs)). mirrored f q q'"
proof (induction refs)
  case Nil
  then show ?case by simp
next
  case (Cons ref refs)
  show ?case
  proof (cases "q \<in> set (reference_quads s f c ref)")
    case True
    with Cons.prems(2) have "mirrored f q (reference_quads s f c ref ! 1)"
      by (auto simp: reference_quads_def mirrored_def)
    moreover have "reference_quads s f c ref ! 1 \<in> set (reference_quads s f c ref)"
      by (simp add: reference_quads_def)
    ultimately show ?thesis by auto
  next
    case False
    with Cons.prems have "q \<in> set (concat (map (reference_quads s f c) refs))"
      by simp
    with Cons.IH Cons.prems(2) obtain q'
      where "q' \<in> set (concat (map (reference_quads s f c) refs))" "mirrored f q q'"
      by blast
    then show ?thesis by auto
  qed
qed

text \<open>
  C10: for a non-empty source symbol, every reference with a non-empty name gives exactly
  the pair \<open>(source, references, ref)\<close> with graph \<open>file->ref_file\<close> and
  \<open>(ref, referenced_by, source)\<close> with graph \<open>ref_file->file\<close>, and the other
  references give nothing. So the output has even length, and every \<open>references\<close>
  quad in it has its mirrored \<open>referenced_by\<close> quad.
\<close>

theorem references_come_in_mirrored_pairs:
  "(named ref \<and> source_symbol \<noteq> [] \<longrightarrow>
      extract_quads_from_references [ref] source_symbol file_path c
        = reference_quads source_symbol file_path c ref)
   \<and> (source_symbol \<noteq> [] \<longrightarrow>
      extract_quads_from_references refs source_symbol file_path c
        = concat (map (reference_quads source_symbol file_path c) (filter named refs)))
   \<and> even (length (extract_quads_from_references refs source_symbol file_path c))
   \<and> (\<forall>q \<in> set (extract_quads_from_references refs source_symbol file_path c).
        predicate q = ''references'' \<longrightarrow>
        (\<exists>q' \<in> set (extract_quads_from_references refs source_symbol file_path c).
           mirrored file_path q q'))"
proof (intro conjI impI ballI)
  assume "named ref \<and> source_symbol \<noteq> []"
  then show "extract_quads_from_references [ref] source_symbol file_path c
        = reference_quads source_symbol file_path c ref"
    by (simp add: quads_from_references_eq)
next
  assume "source_symbol \<noteq> []"
  then show "extract_quads_from_references refs source_symbol file_path c
        = concat (map (reference_quads source_symbol file_path c) (filter named refs))"
    by (simp add: quads_from_references_eq)
next
  show "even (length (extract_quads_from_references refs source_symbol file_path c))"
    by (simp add: quads_from_references_eq length_concat_pairs)
next
  fix q
  assume "q \<in> set (extract_quads_from_references refs source_symbol file_path c)"
    and "predicate q = ''references''"
  then show "\<exists>q' \<in> set (extract_quads_from_references refs source_symbol file_path c).
           mirrored file_path q q'"
    using mirrored_in_pairs [of q source_symbol file_path c "filter named refs"]
    by (auto simp: quads_from_references_eq split: if_splits)
qed

theorem references_come_in_mirrored_pairs_witness:
  "extract_quads_from_references
      [\<lparr>ref_name = Some ''pip_install'', ref_location = Some (Some ''install.py''), ref_kind = Some ''function''\<rparr>,
       \<lparr>ref_name = Some '''', ref_location = None, ref_kind = None\<rparr>]
      ''main'' ''kawai.py'' ''refs''
   = [\<lparr>subject = ''main'', predicate = ''references'', object = ''pip_install'',
       ctxt = Some ''refs'', graph = Some ''kawai.py->install.py''\<rparr>,
      \<lparr>subject = ''pip_install'', predicate = ''referenced_by'', object = ''main'',
       ctxt = Some ''refs'', graph = Some ''install.py->kawai.py''\<rparr>]"
proof -
  let ?r = "\<lparr>ref_name = Some ''pip_install'', ref_location = Some (Some ''install.py''), ref_kind = Some ''function''\<rparr>"
  let ?e = "\<lparr>ref_name = Some '''', ref_location = None, ref_kind = None\<rparr>"
  have h: "named ?r \<and> ''main'' \<noteq> []"
    by (simp add: named_def)
  have "extract_quads_from_references [?r, ?e] ''main'' ''kawai.py'' ''refs''
     = concat (map (reference_quads ''main'' ''kawai.py'' ''refs'') (filter named [?r, ?e]))"
    using h references_come_in_mirrored_pairs [of ?r "''main''" "''kawai.py''" "''refs''" "[?r, ?e]"]
    by blast
  then show ?thesis
    by (simp add: named_def reference_quads_def)
qed

section \<open>Sections of the reports\<close>




section \<open>The regular-expression fallback\<close>

lemma bucket_append_not_Nil: "bucket_append k e d \<noteq> []"
  by (cases d) (auto split: if_splits)

lemma regex_function_fields:
  "f_file (regex_function p feats n) = f_file feats"
  "f_functions (regex_function p feats n)
     = f_functions feats @ [\<lparr>item_name = n, item_type = ''function'', item_line = None\<rparr>]"
  "f_classes (regex_function p feats n) = f_classes feats"
  "f_imports (regex_function p feats n) = f_imports feats"
  "f_variables (regex_function p feats n) = f_variables feats"
  "f_note (regex_function p feats n) = f_note feats"
  "features_by_category (regex_function p feats n) \<noteq> []"
  by (simp_all add: regex_function_def add_to_category_def Let_def bucket_append_not_Nil)

lemma regex_class_fields:
  "f_file (regex_class p feats n) = f_file feats"
  "f_functions (regex_class p feats n) = f_functions feats"
  "f_classes (regex_class p feats n)
     = f_classes feats @ [\<lparr>item_name = n, item_type = ''class'', item_line = None\<rparr>]"
  "f_imports (regex_class p feats n) = f_imports feats"
  "f_variables (regex_class p feats n) = f_variables feats"
  "f_note (regex_class p feats n) = f_note feats"
  "features_by_category (regex_class p feats n) \<noteq> []"
  by (simp_all add: regex_class_def add_to_category_def Let_def bucket_append_not_Nil)

lemma regex_functions_fields:
  "f_file (foldl (regex_function p) feats ns) = f_file feats"
  "f_functions (foldl (regex_function p) feats ns)
     = f_functions feats
       @ map (\<lambda>n. \<lparr>item_name = n, item_type = ''function'', item_line = None\<rparr>) ns"
  "f_classes (foldl (regex_function p) feats ns) = f_classes feats"
  "f_imports (foldl (regex_function p) feats ns) = f_imports feats"
  "f_variables (foldl (regex_function p) feats ns) = f_variables feats"
  "f_note (foldl (regex_function p) feats ns) = f_note feats"
  by (induction ns arbitrary: feats) (simp_all add: regex_function_fields)

lemma regex_classes_fields:
  "f_file (foldl (regex_class p) feats ns) = f_file feats"
  "f_functions (foldl (regex_class p) feats ns) = f_functions feats"
  "f_classes (foldl (regex_class p) feats ns)
     = f_classes feats
       @ map (\<lambda>n. \<lparr>item_name = n, item_type = ''class'', item_line = None\<rparr>) ns"
  "f_imports (foldl (regex_class p) feats ns) = f_imports feats"
  "f_variables (foldl (regex_class p) feats ns) = f_variables feats"
  "f_note (foldl (regex_class p) feats ns) = f_note feats"
  by (induction ns arbitrary: feats) (simp_all add: regex_class_fields)

lemma regex_functions_empty:
  "features_by_category (foldl (regex_function p) feats ns) = []
     \<longleftrightarrow> features_by_category feats = [] \<and> ns = []"
  by (induction ns arbitrary: feats) (simp_all add: regex_function_fields)

lemma regex_classes_empty:
  "features_by_category (foldl (regex_class p) feats ns) = []
     \<longleftrightarrow> features_by_category feats = [] \<and> ns = []"
  by (induction ns arbitrary: feats) (simp_all add: regex_class_fields)

text \<open>
  A file whose whole content is a closing parenthesis does not parse, and none of the
  three scans finds anything in it: every list of the result is empty, and so is
  \<open>features_by_category\<close>.
\<close>

theorem unparsable_file_counterexample:
  "f_functions (analyze_python_file ''kawai.py'' (ParseSyntaxError '')'')) = []
   \<and> f_classes (analyze_python_file ''kawai.py'' (ParseSyntaxError '')'')) = []
   \<and> f_imports (analyze_python_file ''kawai.py'' (ParseSyntaxError '')'')) = []
   \<and> f_variables (analyze_python_file ''kawai.py'' (ParseSyntaxError '')'')) = []
   \<and> features_by_category (analyze_python_file ''kawai.py'' (ParseSyntaxError '')'')) = []"
  by (simp add: analyze_python_file_def analyze_with_regex_def match_func_def match_class_def
      match_import_def match_import_from_def match_import_tail_def)

text \<open>
  C6, as amended: for a file that was read and does not parse, whatever the exception,
  \<open>analyze_python_file\<close> returns the result of the regular-expression scan: a record
  with the file, with the note that marks it, and with the functions, classes and
  imports that the three scans find, each list in the order of the matches and empty
  when its scan finds nothing; no variable is recorded, and there is a category exactly
  when a function or a class was found.
\<close>

theorem regex_fallback_result:
  "(parse_fails src \<longrightarrow>
      analyze_python_file file_path src = analyze_with_regex file_path (content_of src))
   \<and> f_note (analyze_with_regex file_path content)
     = Some ''Regex-based analysis (file may be obfuscated)''
   \<and> f_file (analyze_with_regex file_path content) = file_path
   \<and> f_functions (analyze_with_regex file_path content)
     = map (\<lambda>n. \<lparr>item_name = n, item_type = ''function'', item_line = None\<rparr>)
         (scan_funcs content)
   \<and> f_classes (analyze_with_regex file_path content)
     = map (\<lambda>n. \<lparr>item_name = n, item_type = ''class'', item_line = None\<rparr>)
         (scan_classes content)
   \<and> f_imports (analyze_with_regex file_path content)
     = map (\<lambda>m. \<lparr>import_module = m, import_alias = None, import_type = ''import''\<rparr>)
         (scan_imports True content)
   \<and> f_variables (analyze_with_regex file_path content) = []
   \<and> (features_by_category (analyze_with_regex file_path content) = []
        \<longleftrightarrow> scan_funcs content = [] \<and> scan_classes content = [])"
proof (intro conjI impI)
  assume "parse_fails src"
  then show "analyze_python_file file_path src = analyze_with_regex file_path (content_of src)"
    by (cases src) (simp_all add: analyze_python_file_def)
next
  show "f_note (analyze_with_regex file_path content)
     = Some ''Regex-based analysis (file may be obfuscated)''"
    by (simp add: analyze_with_regex_def Let_def regex_functions_fields regex_classes_fields)
  show "f_file (analyze_with_regex file_path content) = file_path"
    by (simp add: analyze_with_regex_def Let_def regex_functions_fields regex_classes_fields)
  show "f_functions (analyze_with_regex file_path content)
     = map (\<lambda>n. \<lparr>item_name = n, item_type = ''function'', item_line = None\<rparr>)
         (scan_funcs content)"
    by (simp add: analyze_with_regex_def Let_def regex_functions_fields regex_classes_fields)
  show "f_classes (analyze_with_regex file_path content)
     = map (\<lambda>n. \<lparr>item_name = n, item_type = ''class'', item_line = None\<rparr>)
         (scan_classes content)"
    by (simp add: analyze_with_regex_def Let_def regex_functions_fields regex_classes_fields)
  show "f_imports (analyze_with_regex file_path content)
     = map (\<lambda>m. \<lparr>import_module = m, import_alias = None, import_type = ''import''\<rparr>)
         (scan_imports True content)"
    by (simp add: analyze_with_regex_def Let_def regex_functions_fields regex_classes_fields)
  show "f_variables (analyze_with_regex file_path content) = []"
    by (simp add: analyze_with_regex_def Let_def regex_functions_fields regex_classes_fields)
  show "features_by_category (analyze_with_regex file_path content) = []
        \<longleftrightarrow> scan_funcs content = [] \<and> scan_classes content = []"
    by (simp add: analyze_with_regex_def Let_def regex_functions_empty regex_classes_empty)
qed

theorem regex_fallback_result_witness:
  "f_note (analyze_python_file ''kawai.py''
       (ParseSyntaxError (''import os'' @ newline @ ''def install_it(x:'' @ newline @ ''class Foo'')))
     = Some ''Regex-based analysis (file may be obfuscated)''
   \<and> map item_name (f_functions (analyze_python_file ''kawai.py''
       (ParseSyntaxError (''import os'' @ newline @ ''def install_it(x:'' @ newline @ ''class Foo''))))
     = [''install_it'']
   \<and> map item_name (f_classes (analyze_python_file ''kawai.py''
       (ParseSyntaxError (''import os'' @ newline @ ''def install_it(x:'' @ newline @ ''class Foo''))))
     = [''Foo'']
   \<and> map import_module (f_imports (analyze_python_file ''kawai.py''
       (ParseSyntaxError (''import os'' @ newline @ ''def install_it(x:'' @ newline @ ''class Foo''))))
     = [''os'']"
proof -
  let ?content = "''import os'' @ newline @ ''def install_it(x:'' @ newline @ ''class Foo''"
  note inst = regex_fallback_result [of "ParseSyntaxError ?content" "''kawai.py''" ?content]
  have h: "parse_fails (ParseSyntaxError ?content)"
    by simp
  have r: "analyze_python_file ''kawai.py'' (ParseSyntaxError ?content)
      = analyze_with_regex ''kawai.py'' ?content"
    using h inst by simp
  have f: "scan_funcs ?content = [''install_it'']"
    by code_simp
  have c: "scan_classes ?content = [''Foo'']"
    by code_simp
  have i: "scan_imports True ?content = [''os'']"
    by code_simp
  from inst show ?thesis
    unfolding r f c i by simp
qed

section \<open>Variables and their categories\<close>

lemma bucket_bucket_append:
  "bucket (bucket_append k e d) cat = (if cat = k then bucket d cat @ [e] else bucket d cat)"
  by (induction k e d rule: bucket_append.induct) (auto simp: bucket_def)

lemma all_entries_bucket_append:
  "set (all_entries (bucket_append k e d)) = insert e (set (all_entries d))"
  by (induction k e d rule: bucket_append.induct) (auto simp: all_entries_def)

lemma target_variables_simps:
  "target_variables lineno (Name ident)
     = [\<lparr>item_name = ident, item_type = ''variable'', item_line = Some lineno\<rparr>]"
  by (simp add: target_variables_def)

lemma variables_of_Assign:
  "variables_of (Assign lineno targets v) = concat (map (target_variables lineno) targets)"
  by (induction targets rule: plain_names.induct) (simp_all add: target_variables_def)

lemma visit_target_variables:
  "f_variables (visit_target file_path lineno feats target)
     = f_variables feats @ target_variables lineno target"
  by (cases target) (simp_all add: target_variables_def Let_def add_to_category_def)

lemma visit_target_bucket:
  "bucket (features_by_category (visit_target file_path lineno feats target)) cat
     = bucket (features_by_category feats) cat
       @ filter (\<lambda>v. kept file_path v \<and> category_of file_path v = cat)
           (target_variables lineno target)"
  by (cases target)
     (auto simp: target_variables_def Let_def add_to_category_def bucket_bucket_append
        kept_def category_of_def)

lemma visit_target_entries:
  "set (all_entries (features_by_category (visit_target file_path lineno feats target)))
     = set (all_entries (features_by_category feats))
       \<union> set (filter (kept file_path) (target_variables lineno target))"
  by (cases target)
     (auto simp: target_variables_def Let_def add_to_category_def all_entries_bucket_append
        kept_def category_of_def)

lemma visit_targets_variables:
  "f_variables (foldl (visit_target file_path lineno) feats targets)
     = f_variables feats @ concat (map (target_variables lineno) targets)"
  by (induction targets arbitrary: feats) (simp_all add: visit_target_variables)

lemma visit_targets_bucket:
  "bucket (features_by_category (foldl (visit_target file_path lineno) feats targets)) cat
     = bucket (features_by_category feats) cat
       @ filter (\<lambda>v. kept file_path v \<and> category_of file_path v = cat)
           (concat (map (target_variables lineno) targets))"
  by (induction targets arbitrary: feats) (simp_all add: visit_target_bucket)

lemma visit_targets_entries:
  "set (all_entries (features_by_category (foldl (visit_target file_path lineno) feats targets)))
     = set (all_entries (features_by_category feats))
       \<union> set (filter (kept file_path) (concat (map (target_variables lineno) targets)))"
  by (induction targets arbitrary: feats) (auto simp: visit_target_entries)

lemma visit_node_None: "visit_node u file_path feats node = None \<longleftrightarrow> raises_at u node"
  by (cases node) (simp_all add: Let_def split: option.splits)

lemma visit_node_variables:
  "visit_node u file_path feats node = Some feats'
     \<Longrightarrow> f_variables feats' = f_variables feats @ variables_of node"
  by (cases node)
     (auto simp: Let_def add_to_category_def visit_targets_variables variables_of_Assign
        simp del: variables_of.simps(1) split: option.splits)

lemma visit_node_bucket:
  assumes "visit_node u file_path feats node = Some feats'"
  shows "filter is_variable (bucket (features_by_category feats') cat)
     = filter is_variable (bucket (features_by_category feats) cat)
       @ filter (\<lambda>v. kept file_path v \<and> category_of file_path v = cat) (variables_of node)"
proof (cases node)
  case (Assign lineno targets v)
  have "filter is_variable (filter (\<lambda>v. kept file_path v \<and> category_of file_path v = cat)
            (concat (map (target_variables lineno) targets)))
      = filter (\<lambda>v. kept file_path v \<and> category_of file_path v = cat)
            (concat (map (target_variables lineno) targets))"
    by (induction targets) (auto simp: target_variables_def is_variable_def split: ast.splits)
  with Assign assms show ?thesis
    by (auto simp: visit_targets_bucket variables_of_Assign simp del: variables_of.simps(1))
qed (use assms in \<open>auto simp: Let_def add_to_category_def bucket_bucket_append is_variable_def
        split: option.splits\<close>)

lemma visit_node_entries:
  "visit_node u file_path feats node = Some feats' \<Longrightarrow> is_variable e \<Longrightarrow>
     e \<in> set (all_entries (features_by_category feats'))
     \<longleftrightarrow> e \<in> set (all_entries (features_by_category feats))
         \<or> e \<in> set (filter (kept file_path) (variables_of node))"
  by (cases node)
     (auto simp: Let_def add_to_category_def all_entries_bucket_append is_variable_def
        visit_targets_entries variables_of_Assign simp del: variables_of.simps(1)
        split: option.splits)

lemma visit_nodes_None:
  "visit_nodes u file_path feats ns = None \<longleftrightarrow> list_ex (raises_at u) ns"
proof (induction ns arbitrary: feats)
  case Nil
  show ?case by simp
next
  case (Cons node ns)
  show ?case
  proof (cases "visit_node u file_path feats node")
    case None
    then have "raises_at u node"
      by (simp add: visit_node_None)
    with None show ?thesis by simp
  next
    case (Some feats')
    then have "\<not> raises_at u node"
      using visit_node_None [of u file_path feats node] by simp
    with Some Cons.IH [of feats'] show ?thesis by simp
  qed
qed

lemma visit_nodes_variables:
  "visit_nodes u file_path feats ns = Some feats'
     \<Longrightarrow> f_variables feats' = f_variables feats @ concat (map variables_of ns)"
proof (induction ns arbitrary: feats)
  case Nil
  then show ?case by simp
next
  case (Cons node ns)
  then obtain mid where mid: "visit_node u file_path feats node = Some mid"
    and rest: "visit_nodes u file_path mid ns = Some feats'"
    by (auto split: option.splits)
  from Cons.IH [OF rest] visit_node_variables [OF mid] show ?case by simp
qed

lemma visit_nodes_bucket:
  "visit_nodes u file_path feats ns = Some feats'
     \<Longrightarrow> filter is_variable (bucket (features_by_category feats') cat)
       = filter is_variable (bucket (features_by_category feats) cat)
         @ filter (\<lambda>v. kept file_path v \<and> category_of file_path v = cat)
             (concat (map variables_of ns))"
proof (induction ns arbitrary: feats)
  case Nil
  then show ?case by simp
next
  case (Cons node ns)
  then obtain mid where mid: "visit_node u file_path feats node = Some mid"
    and rest: "visit_nodes u file_path mid ns = Some feats'"
    by (auto split: option.splits)
  from Cons.IH [OF rest] visit_node_bucket [OF mid] show ?case by simp
qed

lemma visit_nodes_entries:
  "visit_nodes u file_path feats ns = Some feats' \<Longrightarrow> is_variable e \<Longrightarrow>
     e \<in> set (all_entries (features_by_category feats'))
     \<longleftrightarrow> e \<in> set (all_entries (features_by_category feats))
         \<or> e \<in> set (filter (kept file_path) (concat (map variables_of ns)))"
proof (induction ns arbitrary: feats)
  case Nil
  then show ?case by simp
next
  case (Cons node ns)
  then obtain mid where mid: "visit_node u file_path feats node = Some mid"
    and rest: "visit_nodes u file_path mid ns = Some feats'"
    by (auto split: option.splits)
  from Cons.IH [OF rest Cons.prems(2)] visit_node_entries [OF mid Cons.prems(2)]
  show ?case by auto
qed

text \<open>The regular-expression scan puts no variable into a category.\<close>

lemma regex_functions_entries:
  "set (all_entries (features_by_category (foldl (regex_function p) feats ns)))
     = set (all_entries (features_by_category feats))
       \<union> (\<lambda>n. \<lparr>item_name = n, item_type = ''function'', item_line = None\<rparr>) ` set ns"
  by (induction ns arbitrary: feats)
     (auto simp: regex_function_def add_to_category_def Let_def all_entries_bucket_append)

lemma regex_classes_entries:
  "set (all_entries (features_by_category (foldl (regex_class p) feats ns)))
     = set (all_entries (features_by_category feats))
       \<union> (\<lambda>n. \<lparr>item_name = n, item_type = ''class'', item_line = None\<rparr>) ` set ns"
  by (induction ns arbitrary: feats)
     (auto simp: regex_class_def add_to_category_def Let_def all_entries_bucket_append)

lemma regex_no_variable_entry:
  "e \<in> set (all_entries (features_by_category (analyze_with_regex p content)))
     \<Longrightarrow> \<not> is_variable e"
proof -
  have "all_entries [] = []"
    by (simp add: all_entries_def)
  then show "e \<in> set (all_entries (features_by_category (analyze_with_regex p content)))
     \<Longrightarrow> \<not> is_variable e"
    by (auto simp: analyze_with_regex_def Let_def regex_functions_entries regex_classes_entries
        is_variable_def)
qed

lemma bucket_in_all_entries: "set (bucket d cat) \<subseteq> set (all_entries d)"
proof
  fix x
  assume "x \<in> set (bucket d cat)"
  then obtain entries where m: "map_of d cat = Some entries" and x: "x \<in> set entries"
    by (cases "map_of d cat") (auto simp: bucket_def)
  from m have "(cat, entries) \<in> set d"
    by (rule map_of_SomeD)
  with x show "x \<in> set (all_entries d)"
    by (force simp: all_entries_def)
qed

lemma regex_no_variable_bucket:
  "filter is_variable (bucket (features_by_category (analyze_with_regex p content)) cat) = []"
  using regex_no_variable_entry [of _ p content] bucket_in_all_entries
  by (fastforce simp: filter_empty_conv)

lemma regex_no_variables: "f_variables (analyze_with_regex p content) = []"
  by (simp add: analyze_with_regex_def Let_def regex_functions_fields regex_classes_fields)

lemma analysis_raising:
  "analysis_raises u tree
     \<Longrightarrow> analyze_python_file p (Parsed content tree u) = analyze_with_regex p content"
proof -
  assume "analysis_raises u tree"
  then have "visit_nodes u p \<lparr>f_file = p, f_functions = [], f_classes = [],
        f_imports = concat (map import_items (walk tree)), f_variables = [],
        features_by_category = [], f_note = None\<rparr> (walk tree) = None"
    by (simp add: visit_nodes_None analysis_raises_def)
  then show ?thesis
    by (simp add: analyze_python_file_def Let_def)
qed

lemma analysis_completing:
  assumes "\<not> analysis_raises u tree"
  obtains feats where
    "visit_nodes u p \<lparr>f_file = p, f_functions = [], f_classes = [],
        f_imports = concat (map import_items (walk tree)), f_variables = [],
        features_by_category = [], f_note = None\<rparr> (walk tree) = Some feats"
    and "analyze_python_file p (Parsed content tree u) = feats"
proof -
  let ?start = "\<lparr>f_file = p, f_functions = [], f_classes = [],
        f_imports = concat (map import_items (walk tree)), f_variables = [],
        features_by_category = [], f_note = None\<rparr>"
  from assms have "visit_nodes u p ?start (walk tree) \<noteq> None"
    by (simp add: visit_nodes_None analysis_raises_def)
  then obtain feats where f: "visit_nodes u p ?start (walk tree) = Some feats"
    by auto
  then have "analyze_python_file p (Parsed content tree u) = feats"
    by (simp add: analyze_python_file_def Let_def)
  with f show ?thesis by (rule that)
qed

text \<open>
  C9, as amended: when the analysis of the syntax tree completes, every target of an
  \<open>Assign\<close> statement that is a plain name is recorded in \<open>variables\<close>, in the order
  of the traversal; when \<open>ast.unparse\<close> raises on a decorator or a base class, the
  result is that of the regular-expression scan and \<open>variables\<close> is empty. In both
  cases the variables in the bucket of a category are those of \<open>variables\<close>, in
  order, whose name is longer than three characters and whose category is this one and
  not \<open>utilities\<close>; and a variable entry is in some bucket exactly when it is a
  recorded variable with a name longer than three characters and a category other than
  \<open>utilities\<close>.
\<close>

theorem variables_recorded_and_categorized:
  "(\<not> analysis_raises unparsed tree \<longrightarrow>
      f_variables (analyze_python_file file_path (Parsed content tree unparsed))
        = concat (map variables_of (walk tree)))
   \<and> (analysis_raises unparsed tree \<longrightarrow>
      analyze_python_file file_path (Parsed content tree unparsed)
        = analyze_with_regex file_path content
      \<and> f_variables (analyze_python_file file_path (Parsed content tree unparsed)) = [])
   \<and> filter is_variable
        (bucket (features_by_category
                   (analyze_python_file file_path (Parsed content tree unparsed))) cat)
     = filter (\<lambda>v. kept file_path v \<and> category_of file_path v = cat)
         (f_variables (analyze_python_file file_path (Parsed content tree unparsed)))
   \<and> (is_variable e \<longrightarrow>
        (e \<in> set (all_entries (features_by_category
                     (analyze_python_file file_path (Parsed content tree unparsed))))
         \<longleftrightarrow> e \<in> set (f_variables (analyze_python_file file_path (Parsed content tree unparsed)))
             \<and> length (item_name e) > 3
             \<and> categorize_feature (item_name e) ''variable'' [(''file'', basename file_path)]
                 \<noteq> ''utilities''))"
proof (cases "analysis_raises unparsed tree")
  case True
  let ?r = "analyze_python_file file_path (Parsed content tree unparsed)"
  from True have r: "?r = analyze_with_regex file_path content"
    by (rule analysis_raising)
  have "is_variable e \<longrightarrow> e \<notin> set (all_entries (features_by_category ?r))"
    unfolding r using regex_no_variable_entry by blast
  with True show ?thesis
    unfolding r by (simp add: regex_no_variables regex_no_variable_bucket)
next
  case False
  let ?r = "analyze_python_file file_path (Parsed content tree unparsed)"
  let ?start = "\<lparr>f_file = file_path, f_functions = [], f_classes = [],
        f_imports = concat (map import_items (walk tree)), f_variables = [],
        features_by_category = [], f_note = None\<rparr>"
  from False obtain feats where
    v: "visit_nodes unparsed file_path ?start (walk tree) = Some feats" and r: "?r = feats"
    by (rule analysis_completing)
  have empty: "bucket [] cat = []" "all_entries [] = []"
    by (simp_all add: bucket_def all_entries_def)
  have vars: "f_variables ?r = concat (map variables_of (walk tree))"
    unfolding r using visit_nodes_variables [OF v] by simp
  have buckets: "filter is_variable (bucket (features_by_category ?r) cat)
     = filter (\<lambda>v. kept file_path v \<and> category_of file_path v = cat) (f_variables ?r)"
    unfolding vars unfolding r using visit_nodes_bucket [OF v, of cat] by (simp add: empty)
  have entries: "is_variable e \<longrightarrow>
        (e \<in> set (all_entries (features_by_category ?r))
         \<longleftrightarrow> e \<in> set (f_variables ?r)
             \<and> length (item_name e) > 3
             \<and> categorize_feature (item_name e) ''variable'' [(''file'', basename file_path)]
                 \<noteq> ''utilities'')"
  proof
    assume e: "is_variable e"
    have "e \<in> set (all_entries (features_by_category ?r))
       \<longleftrightarrow> e \<in> set (filter (kept file_path) (concat (map variables_of (walk tree))))"
      unfolding r using visit_nodes_entries [OF v e] by (simp add: empty)
    with e vars show "e \<in> set (all_entries (features_by_category ?r))
         \<longleftrightarrow> e \<in> set (f_variables ?r)
             \<and> length (item_name e) > 3
             \<and> categorize_feature (item_name e) ''variable'' [(''file'', basename file_path)]
                 \<noteq> ''utilities''"
      by (auto simp: kept_def category_of_def is_variable_def)
  qed
  from False vars buckets entries show ?thesis by blast
qed


lemma walk_queue_keeps: "set todo \<subseteq> set (walk_queue todo)"
  by (induction todo rule: walk_queue.induct) auto

lemma deep_tree_raises: "analysis_raises deep_unparsed deep_tree"
proof -
  have "deep_class \<in> set (walk_queue (iter_child_nodes deep_tree))"
    using walk_queue_keeps [of "iter_child_nodes deep_tree"] by (auto simp: deep_tree_def)
  then have "deep_class \<in> set (walk deep_tree)"
    by (simp add: walk_def deep_tree_def)
  moreover have "raises_at deep_unparsed deep_class"
    by (simp add: deep_class_def deep_unparsed_def)
  ultimately show ?thesis
    by (auto simp: analysis_raises_def list_ex_iff)
qed

text \<open>
  The file with the class of the deep base and the assignment \<open>config_path = 1\<close>
  parses, and its tree has the assignment; but \<open>ast.unparse\<close> raises on the base, the
  outer handler returns the regular-expression scan, and the variable is not recorded.
\<close>

theorem deep_base_counterexample:
  "f_variables (analyze_python_file ''kawai.py'' (Parsed deep_content deep_tree deep_unparsed)) = []
   \<and> \<lparr>item_name = ''config_path'', item_type = ''variable'', item_line = Some 2\<rparr>
       \<in> set (concat (map variables_of (walk deep_tree)))"
proof
  have "analyze_python_file ''kawai.py'' (Parsed deep_content deep_tree deep_unparsed)
      = analyze_with_regex ''kawai.py'' deep_content"
    using deep_tree_raises by (rule analysis_raising)
  then show "f_variables (analyze_python_file ''kawai.py''
      (Parsed deep_content deep_tree deep_unparsed)) = []"
    by (simp add: regex_no_variables)
next
  have "Assign 2 [Name ''config_path''] (Other []) \<in> set (walk_queue (iter_child_nodes deep_tree))"
    using walk_queue_keeps [of "iter_child_nodes deep_tree"] by (auto simp: deep_tree_def)
  then have "Assign 2 [Name ''config_path''] (Other []) \<in> set (walk deep_tree)"
    by (simp add: walk_def deep_tree_def)
  moreover have "\<lparr>item_name = ''config_path'', item_type = ''variable'', item_line = Some 2\<rparr>
      \<in> set (variables_of (Assign 2 [Name ''config_path''] (Other [])))"
    by simp
  ultimately show "\<lparr>item_name = ''config_path'', item_type = ''variable'', item_line = Some 2\<rparr>
       \<in> set (concat (map variables_of (walk deep_tree)))"
    by (auto simp del: variables_of.simps)
qed

theorem variables_recorded_and_categorized_witness:
  "map item_name (f_variables (analyze_python_file ''install.py''
      (Parsed [] (Other [FunctionDef ''setup'' 2 [] [Other [], Other []],
                         Assign 4 [Name ''x'', Name ''config_path'', Name ''helper'',
                                   Attribute (Name ''self'') ''mode''] (Other [])])
         (\<lambda>node. Some []))))
     = [''x'', ''config_path'', ''helper'']
   \<and> \<lparr>item_name = ''config_path'', item_type = ''variable'', item_line = Some 4\<rparr>
       \<in> set (all_entries (features_by_category (analyze_python_file ''install.py''
      (Parsed [] (Other [FunctionDef ''setup'' 2 [] [Other [], Other []],
                         Assign 4 [Name ''x'', Name ''config_path'', Name ''helper'',
                                   Attribute (Name ''self'') ''mode''] (Other [])])
         (\<lambda>node. Some [])))))
   \<and> \<lparr>item_name = ''helper'', item_type = ''variable'', item_line = Some 4\<rparr>
       \<notin> set (all_entries (features_by_category (analyze_python_file ''install.py''
      (Parsed [] (Other [FunctionDef ''setup'' 2 [] [Other [], Other []],
                         Assign 4 [Name ''x'', Name ''config_path'', Name ''helper'',
                                   Attribute (Name ''self'') ''mode''] (Other [])])
         (\<lambda>node. Some [])))))
   \<and> \<lparr>item_name = ''x'', item_type = ''variable'', item_line = Some 4\<rparr>
       \<notin> set (all_entries (features_by_category (analyze_python_file ''install.py''
      (Parsed [] (Other [FunctionDef ''setup'' 2 [] [Other [], Other []],
                         Assign 4 [Name ''x'', Name ''config_path'', Name ''helper'',
                                   Attribute (Name ''self'') ''mode''] (Other [])])
         (\<lambda>node. Some [])))))
   \<and> analyze_python_file ''kawai.py'' (Parsed deep_content deep_tree deep_unparsed)
     = analyze_with_regex ''kawai.py'' deep_content"
proof -
  let ?tree = "Other [FunctionDef ''setup'' 2 [] [Other [], Other []],
                      Assign 4 [Name ''x'', Name ''config_path'', Name ''helper'',
                                Attribute (Name ''self'') ''mode''] (Other [])]"
  let ?u = "\<lambda>node :: ast. Some ([] :: string list)"
  let ?r = "analyze_python_file ''install.py'' (Parsed [] ?tree ?u)"
  let ?x = "\<lparr>item_name = ''x'', item_type = ''variable'', item_line = Some 4\<rparr>"
  let ?c = "\<lparr>item_name = ''config_path'', item_type = ''variable'', item_line = Some 4\<rparr>"
  let ?h = "\<lparr>item_name = ''helper'', item_type = ''variable'', item_line = Some 4\<rparr>"
  have w: "walk ?tree
      = [?tree,
         FunctionDef ''setup'' 2 [] [Other [], Other []],
         Assign 4 [Name ''x'', Name ''config_path'', Name ''helper'',
                   Attribute (Name ''self'') ''mode''] (Other []),
         Other [], Other [], Name ''x'', Name ''config_path'', Name ''helper'',
         Attribute (Name ''self'') ''mode'', Other [], Other [], Other [], Other [],
         Name ''self'', Other [], Other []]"
    by (simp add: walk_def)
  have ok: "\<not> analysis_raises ?u ?tree"
    by (simp add: analysis_raises_def w)
  have "f_variables ?r = concat (map variables_of (walk ?tree))"
    by (rule variables_recorded_and_categorized
          [of ?u ?tree "''install.py''" "[]" "''utilities''" ?x, THEN conjunct1, THEN mp, OF ok])
  then have vars: "f_variables ?r = [?x, ?c, ?h]"
    by (simp add: w)
  have cc: "categorize_feature ''config_path'' ''variable'' [(''file'', basename ''install.py'')]
      = ''configuration''"
    by code_simp
  have ch: "categorize_feature ''helper'' ''variable'' [(''file'', basename ''install.py'')]
      = ''utilities''"
    by code_simp
  have member: "is_variable e \<Longrightarrow>
      e \<in> set (all_entries (features_by_category ?r))
      \<longleftrightarrow> e \<in> set (f_variables ?r) \<and> length (item_name e) > 3
          \<and> categorize_feature (item_name e) ''variable'' [(''file'', basename ''install.py'')]
              \<noteq> ''utilities''" for e
    by (rule variables_recorded_and_categorized
          [of ?u ?tree "''install.py''" "[]" "''utilities''" e,
           THEN conjunct2, THEN conjunct2, THEN conjunct2, THEN mp])
  have "?x \<notin> set (all_entries (features_by_category ?r))"
    by (subst member) (simp_all add: is_variable_def)
  moreover have "?c \<in> set (all_entries (features_by_category ?r))"
    by (subst member) (simp_all add: is_variable_def vars cc)
  moreover have "?h \<notin> set (all_entries (features_by_category ?r))"
    by (subst member) (simp_all add: is_variable_def ch)
  moreover have "analyze_python_file ''kawai.py'' (Parsed deep_content deep_tree deep_unparsed)
      = analyze_with_regex ''kawai.py'' deep_content"
    using deep_tree_raises
      variables_recorded_and_categorized
        [of deep_unparsed deep_tree "''kawai.py''" deep_content "''utilities''" ?x]
    by blast
  ultimately show ?thesis
    using vars by simp
qed

end
